theory Spec2Isabelle
  imports Complex_Main "HOL-Library.Sublist" "HOL-Library.AList" "HOL-Library.Word"
    "HOL-Library.Log_Nat" "HOL-Library.Signed_Division"
begin

section \<open>Go values used by the node\<close>

text \<open>
  A Go \<^verbatim>\<open>string\<close> is a sequence of bytes; it is modelled as a \<^typ>\<open>string\<close>
  (a list of 8-bit characters). A run-time panic is a value: every function of the node
  that can panic returns \<open>panic + 'a\<close>, with \<open>Inl\<close> for the panic.
\<close>

datatype panic = IndexOutOfRange | CloseOfClosedChannel

subsection \<open>The functions of package \<^verbatim>\<open>strings\<close> the node calls\<close>

text \<open>
  \<^verbatim>\<open>strings.HasPrefix(s, p)\<close> is \<^term>\<open>prefix p s\<close>.
  \<^verbatim>\<open>strings.Index(s, sep)\<close> is the index of the first instance of \<open>sep\<close> in
  \<open>s\<close>, or -1 (here \<open>None\<close>); \<^verbatim>\<open>strings.Contains\<close> is \<^verbatim>\<open>Index(s, sep) >= 0\<close>.
\<close>

fun Index :: "string \<Rightarrow> string \<Rightarrow> nat option" where
  "Index [] sep = (if sep = [] then Some 0 else None)"
| "Index (c # cs) sep =
     (if prefix sep (c # cs) then Some 0 else map_option Suc (Index cs sep))"

definition Contains :: "string \<Rightarrow> string \<Rightarrow> bool" where
  "Contains s substr = (Index s substr \<noteq> None)"

definition TrimPrefix :: "string \<Rightarrow> string \<Rightarrow> string" where
  "TrimPrefix s p = (if prefix p s then drop (length p) s else s)"

text \<open>
  \<^verbatim>\<open>utf8.DecodeRuneInString(s)\<close> returns the first rune of \<open>s\<close> and its width in
  bytes; only the width matters to \<^verbatim>\<open>strings\<close>. An ASCII byte has width 1, a
  well-formed sequence of 2 to 4 bytes has its length as width, and an invalid or
  truncated sequence has width 1. The bounds are those of the tables \<^verbatim>\<open>first\<close> and
  \<^verbatim>\<open>acceptRanges\<close> of package \<^verbatim>\<open>utf8\<close>.
\<close>

definition byte :: "string \<Rightarrow> nat \<Rightarrow> nat" where
  "byte s i = of_char (s ! i)"

definition DecodeRuneInString_size :: "string \<Rightarrow> nat" where
  "DecodeRuneInString_size s =
     (if s = [] then 0
      else let x = byte s 0 in
        if x < 0xC2 \<or> 0xF4 < x then 1
        else let sz = (if x < 0xE0 then 2 else if x < 0xF0 then 3 else (4::nat));
                 lo = (if x = 0xE0 then 0xA0 else if x = 0xF0 then 0x90 else 0x80);
                 hi = (if x = 0xED then 0x9F else if x = 0xF4 then 0x8F else 0xBF)
             in if length s < sz then 1
                else if byte s 1 < lo \<or> hi < byte s 1 then 1
                else if sz \<le> 2 then 2
                else if byte s 2 < 0x80 \<or> 0xBF < byte s 2 then 1
                else if sz \<le> 3 then 3
                else if byte s 3 < 0x80 \<or> 0xBF < byte s 3 then 1
                else 4)"

lemma DecodeRuneInString_size_pos: "s \<noteq> [] \<Longrightarrow> 0 < DecodeRuneInString_size s"
  by (simp add: DecodeRuneInString_size_def Let_def)

text \<open>\<^verbatim>\<open>utf8.RuneCountInString(s)\<close>: the number of runes, an invalid byte counting as one.\<close>

function RuneCountInString :: "string \<Rightarrow> nat" where
  "RuneCountInString s =
     (if s = [] then 0 else Suc (RuneCountInString (drop (DecodeRuneInString_size s) s)))"
  by pat_completeness auto
termination
  by (relation "measure length") (auto simp: DecodeRuneInString_size_pos)

declare RuneCountInString.simps [simp del]

text \<open>
  \<^verbatim>\<open>strings.explode(s, n)\<close> splits \<open>s\<close> into UTF-8 sequences, at most \<open>n\<close> of them
  (\<open>n < 0\<close>: no limit), the last one holding the unsplit rest; invalid bytes are sliced
  one by one. \<open>explodeLoop k\<close> fills a slice of \<open>k\<close> elements.
\<close>

fun explodeLoop :: "nat \<Rightarrow> string \<Rightarrow> string list" where
  "explodeLoop 0 s = []"
| "explodeLoop (Suc 0) s = [s]"
| "explodeLoop (Suc (Suc k)) s =
     take (DecodeRuneInString_size s) s #
     explodeLoop (Suc k) (drop (DecodeRuneInString_size s) s)"

definition explode :: "string \<Rightarrow> int \<Rightarrow> string list" where
  "explode s n =
     (let l = RuneCountInString s
      in explodeLoop (if n < 0 \<or> int l < n then l else nat n) s)"

text \<open>
  \<^verbatim>\<open>strings.Count(s, sep)\<close> counts the non-overlapping instances of \<open>sep\<close> in
  \<open>s\<close>, found from the left; for an empty \<open>sep\<close> it is the number of runes plus one.
\<close>

lemma Index_Some_le: "Index s sep = Some i \<Longrightarrow> i + length sep \<le> length s"
proof (induction s arbitrary: i)
  case Nil
  then show ?case by (simp split: if_splits)
next
  case (Cons c cs)
  show ?case
  proof (cases "prefix sep (c # cs)")
    case True
    with Cons.prems show ?thesis by (auto dest: prefix_length_le)
  next
    case False
    with Cons.prems obtain j where "Index cs sep = Some j" "i = Suc j" by auto
    with Cons.IH show ?thesis by fastforce
  qed
qed

function Count :: "string \<Rightarrow> string \<Rightarrow> nat" where
  "Count s sep =
     (if sep = [] then RuneCountInString s + 1
      else case Index s sep of
             None \<Rightarrow> 0
           | Some i \<Rightarrow> Suc (Count (drop (i + length sep) s) sep))"
  by pat_completeness auto
termination
proof (relation "measure (\<lambda>(s, sep). length s)")
  show "wf (measure (\<lambda>(s, sep). length s))" by simp
next
  fix s sep :: string and i :: nat
  assume "sep \<noteq> []" and "Index s sep = Some i"
  then have "i + length sep \<le> length s" and "0 < length sep"
    by (auto dest: Index_Some_le)
  then have "length s - (i + length sep) < length s"
    by arith
  then show "((drop (i + length sep) s, sep), (s, sep)) \<in> measure (\<lambda>(s, sep). length s)"
    by simp
qed

declare Count.simps [simp del]

text \<open>
  \<^verbatim>\<open>strings.genSplit(s, sep, 0, n)\<close>, the body of \<^verbatim>\<open>Split\<close> (\<open>n = -1\<close>) and of
  \<^verbatim>\<open>SplitN\<close>: no piece for \<open>n = 0\<close>; the UTF-8 sequences of \<open>s\<close> for an empty \<open>sep\<close>;
  otherwise \<open>s\<close> is cut at the instances of \<open>sep\<close> found from the left, at most
  \<open>n - 1\<close> times (\<open>n < 0\<close>: \<open>Count(s, sep)\<close> times), and the rest is the last piece.
  \<open>splitLoop k\<close> is the loop with \<open>k\<close> cuts left.
\<close>

fun splitLoop :: "nat \<Rightarrow> string \<Rightarrow> string \<Rightarrow> string list" where
  "splitLoop 0 s sep = [s]"
| "splitLoop (Suc k) s sep =
     (case Index s sep of
        None \<Rightarrow> [s]
      | Some m \<Rightarrow> take m s # splitLoop k (drop (m + length sep) s) sep)"

definition genSplit :: "string \<Rightarrow> string \<Rightarrow> int \<Rightarrow> string list" where
  "genSplit s sep n =
     (if n = 0 then []
      else if sep = [] then explode s n
      else splitLoop (if n < 0 then Count s sep else nat (n - 1)) s sep)"

definition Split :: "string \<Rightarrow> string \<Rightarrow> string list" where
  "Split s sep = genSplit s sep (- 1)"

definition SplitN :: "string \<Rightarrow> string \<Rightarrow> int \<Rightarrow> string list" where
  "SplitN s sep n = genSplit s sep n"

section \<open>Configuration and the channel grammar\<close>

text \<open>
  The fields of \<^verbatim>\<open>Config\<close> the node reads in this file. All of them are Go strings
  the application sets; the zero value \<^verbatim>\<open>Config{}\<close> has every one of them empty.
\<close>

record Config =
  Name :: string
  Version :: string
  ChannelPrivatePrefix :: string
  ChannelNamespaceBoundary :: string
  ChannelUserBoundary :: string
  ChannelUserSeparator :: string
  ChannelClientBoundary :: string

text \<open>
  \<^verbatim>\<open>Node.namespaceName\<close>. The index expression \<^verbatim>\<open>parts[0]\<close> panics when
  \<^verbatim>\<open>SplitN\<close> returns an empty slice.
\<close>

definition namespaceName :: "Config \<Rightarrow> string \<Rightarrow> panic + string" where
  "namespaceName c ch =
     (let cTrim = TrimPrefix ch (ChannelPrivatePrefix c) in
      if Contains cTrim (ChannelNamespaceBoundary c) then
        (let parts = SplitN cTrim (ChannelNamespaceBoundary c) 2 in
         if parts = [] then Inl IndexOutOfRange else Inr (parts ! 0))
      else Inr [])"

text \<open>\<^verbatim>\<open>Node.privateChannel\<close>.\<close>

definition privateChannel :: "Config \<Rightarrow> string \<Rightarrow> bool" where
  "privateChannel c ch = prefix (ChannelPrivatePrefix c) ch"

text \<open>
  \<^verbatim>\<open>Node.userAllowed\<close>. The loop over \<^verbatim>\<open>allowedUsers\<close> returns true at the first
  element equal to \<open>user\<close>; \<^verbatim>\<open>parts[len(parts)-1]\<close> panics on an empty slice.
\<close>

fun userInList :: "string \<Rightarrow> string list \<Rightarrow> bool" where
  "userInList user [] = False"
| "userInList user (allowedUser # rest) =
     (if user = allowedUser then True else userInList user rest)"

definition userAllowed :: "Config \<Rightarrow> string \<Rightarrow> string \<Rightarrow> panic + bool" where
  "userAllowed c ch user =
     (if \<not> Contains ch (ChannelUserBoundary c) then Inr True
      else let parts = Split ch (ChannelUserBoundary c) in
        if parts = [] then Inl IndexOutOfRange
        else let allowedUsers = Split (parts ! (length parts - 1)) (ChannelUserSeparator c)
             in Inr (userInList user allowedUsers))"

section \<open>Messages, errors and the log\<close>

text \<open>
  The protocol packages are not part of this file; their types are modelled by what the
  node reads and writes of them. A method or message type is one of the named constants
  or any other value of the underlying integer type (\<open>MethodTypeOther\<close>,
  \<open>MessageTypeOther\<close>). A \<^verbatim>\<open>[]byte\<close> is a \<^typ>\<open>string\<close>. Pointers handed to the
  node are taken to be non-nil.
\<close>

type_synonym bytes = string

datatype MethodType =
  MethodTypeNode | MethodTypeUnsubscribe | MethodTypeDisconnect | MethodTypeOther int

datatype MessageType =
  MessageTypePublication | MessageTypeJoin | MessageTypeLeave | MessageTypeOther int

text \<open>
  A Go \<^verbatim>\<open>error\<close> is \<open>error option\<close>, \<open>None\<close> for \<^verbatim>\<open>nil\<close>. The node's own errors
  are named; \<open>ErrControlMethodNotFound\<close> is the \<^verbatim>\<open>fmt.Errorf\<close> value of
  \<^verbatim>\<open>handleControl\<close>, and \<open>ErrOther\<close> is any error made by a collaborator.
\<close>

datatype error =
  ErrBadRequest | ErrNamespaceNotFound | ErrInternalServerError
| ErrControlMethodNotFound MethodType | ErrOther string

record Command =
  cmd_UID :: string
  cmd_Method :: MethodType
  cmd_Params :: bytes

record ControlNode =
  node_UID :: string
  node_Name :: string
  node_Version :: string
  node_NumClients :: "32 word"
  node_NumUsers :: "32 word"
  node_NumChannels :: "32 word"
  node_Uptime :: "32 word"

record ControlUnsubscribe =
  unsub_User :: string
  unsub_Channel :: string

record ControlDisconnect =
  disc_User :: string

record Message =
  msg_Type :: MessageType
  msg_Channel :: string
  msg_Data :: bytes

record Publication =
  pub_UID :: string
  pub_Data :: bytes

typedecl Join

typedecl Leave

datatype LogLevel = LogLevelError

datatype LogValue = ErrorText error | MethodValue MethodType

record LogEntry =
  log_Level :: LogLevel
  log_Message :: string
  log_Fields :: "(string \<times> LogValue) list"

definition newLogEntry :: "LogLevel \<Rightarrow> string \<Rightarrow> (string \<times> LogValue) list \<Rightarrow> LogEntry" where
  "newLogEntry level message fs =
     \<lparr>log_Level = level, log_Message = message, log_Fields = fs\<rparr>"

section \<open>Machine integers and floating point\<close>

text \<open>
  A Go \<^verbatim>\<open>int64\<close> is a word of 64 bits: \<open>+\<close> and \<open>-\<close> wrap around, a comparison
  reads both sides as two's complement (\<open><s\<close>), and \<open>/\<close> and \<open>%\<close> truncate toward zero
  (\<open>sdiv\<close> and \<open>smod\<close> on the signed values).

  A \<^verbatim>\<open>float64\<close> that is neither infinite nor NaN is the rational number it stands
  for. \<open>round_float64 x\<close> is the \<^verbatim>\<open>float64\<close> nearest to \<open>x\<close>, a tie going to the
  even significand: with \<open>2\<^sup>e \<le> |x| < 2\<^sup>e\<^sup>+\<^sup>1\<close> the significand is \<open>|x| / 2\<^sup>e\<^sup>-\<^sup>5\<^sup>2\<close>
  rounded to an integer. It is the result of a conversion from an integer and of an
  arithmetic operation on the exact result. The range of the exponent is not modelled:
  what this file rounds is 0 or lies between \<open>10\<^sup>-\<^sup>9\<close> and \<open>10\<^sup>1\<^sup>0\<close> in magnitude.
\<close>

type_synonym int64 = "64 word"

definition round_half_even :: "rat \<Rightarrow> int" where
  "round_half_even x =
     (let f = \<lfloor>x\<rfloor>; r = x - of_int f
      in if r < 1 / 2 then f else if 1 / 2 < r then f + 1 else if even f then f else f + 1)"

definition exponent :: "rat \<Rightarrow> int" where
  "exponent x =
     (case quotient_of x of
        (a, b) \<Rightarrow> let k = bitlen a - bitlen b in if 2 powi k \<le> x then k else k - 1)"

definition round_float64 :: "rat \<Rightarrow> rat" where
  "round_float64 x =
     (if x = 0 then 0
      else let q = 2 powi (exponent \<bar>x\<bar> - 52)
           in sgn x * of_int (round_half_even (\<bar>x\<bar> / q)) * q)"

text \<open>
  \<^verbatim>\<open>time.Duration\<close> is an \<^verbatim>\<open>int64\<close> count of nanoseconds, and
  \<^verbatim>\<open>Duration.Seconds\<close> computes \<^verbatim>\<open>float64(d / Second) + float64(d % Second) / 1e9\<close>.
  The conversion \<^verbatim>\<open>int64(f)\<close> of a \<^verbatim>\<open>float64\<close> drops the fraction.
\<close>

definition Seconds :: "int64 \<Rightarrow> rat" where
  "Seconds d =
     (let sec = sint d sdiv 1000000000; nsec = sint d smod 1000000000
      in round_float64 (round_float64 (of_int sec)
           + round_float64 (round_float64 (of_int nsec) / 1000000000)))"

definition int64_of_float64 :: "rat \<Rightarrow> int64" where
  "int64_of_float64 x = word_of_int (if 0 \<le> x then \<lfloor>x\<rfloor> else \<lceil>x\<rceil>)"


section \<open>The node registry\<close>

text \<open>
  The two Go maps of \<^verbatim>\<open>nodeRegistry\<close> are association lists read with
  \<^const>\<open>map_of\<close>; the order of a list stands for the unspecified order in which
  \<^verbatim>\<open>range\<close> visits the keys. A Unix time is an \<^verbatim>\<open>int64\<close> number of seconds.
\<close>

record nodeRegistry =
  currentUID :: string
  nodes :: "(string \<times> ControlNode) list"
  updates :: "(string \<times> int64) list"

definition newNodeRegistry :: "string \<Rightarrow> nodeRegistry" where
  "newNodeRegistry uid0 = \<lparr>currentUID = uid0, nodes = [], updates = []\<rparr>"


text \<open>\<^verbatim>\<open>nodeRegistry.get\<close>: a missing key reads as the zero value of the record.\<close>

definition zero_ControlNode :: ControlNode where
  "zero_ControlNode =
     \<lparr>node_UID = [], node_Name = [], node_Version = [], node_NumClients = 0,
      node_NumUsers = 0, node_NumChannels = 0, node_Uptime = 0\<rparr>"

definition get :: "nodeRegistry \<Rightarrow> string \<Rightarrow> ControlNode" where
  "get r uid0 = (case map_of (nodes r) uid0 of None \<Rightarrow> zero_ControlNode | Some info \<Rightarrow> info)"

text \<open>\<^verbatim>\<open>nodeRegistry.add\<close>; \<open>now\<close> is the value of \<^verbatim>\<open>time.Now().Unix()\<close>.\<close>

definition add :: "int64 \<Rightarrow> ControlNode \<Rightarrow> nodeRegistry \<Rightarrow> nodeRegistry" where
  "add now info r =
     r\<lparr>nodes := AList.update (node_UID info) info (nodes r),
       updates := AList.update (node_UID info) now (updates r)\<rparr>"

text \<open>
  \<^verbatim>\<open>nodeRegistry.clean\<close>. \<open>now uid\<close> is the value of \<^verbatim>\<open>time.Now().Unix()\<close> read
  in the iteration for \<open>uid\<close>, and \<open>secs\<close> the value of \<^verbatim>\<open>int64(delay.Seconds())\<close>.
  \<open>clean_iter\<close> is the body of the loop, \<open>clean_loop\<close> the loop over the keys.
\<close>

definition clean_iter ::
  "int64 \<Rightarrow> (string \<Rightarrow> int64) \<Rightarrow> string \<Rightarrow> nodeRegistry \<Rightarrow> nodeRegistry" where
  "clean_iter secs now uid0 r =
     (if uid0 = currentUID r then r
      else case map_of (updates r) uid0 of
             None \<Rightarrow> r\<lparr>nodes := AList.delete uid0 (nodes r)\<rparr>
           | Some updated \<Rightarrow>
               if secs <s now uid0 - updated
               then r\<lparr>nodes := AList.delete uid0 (nodes r),
                      updates := AList.delete uid0 (updates r)\<rparr>
               else r)"

fun clean_loop ::
  "int64 \<Rightarrow> (string \<Rightarrow> int64) \<Rightarrow> string list \<Rightarrow> nodeRegistry \<Rightarrow> nodeRegistry" where
  "clean_loop secs now [] r = r"
| "clean_loop secs now (uid0 # rest) r = clean_loop secs now rest (clean_iter secs now uid0 r)"

definition clean :: "int64 \<Rightarrow> (string \<Rightarrow> int64) \<Rightarrow> nodeRegistry \<Rightarrow> nodeRegistry" where
  "clean delay now r =
     clean_loop (int64_of_float64 (Seconds delay)) now (map fst (nodes r)) r"

section \<open>The node and its collaborators\<close>

text \<open>
  The hub, the engine, the encoders and decoders, \<^verbatim>\<open>Config.channelOpts\<close> and the
  \<^verbatim>\<open>nuid\<close> generator are declared outside this file. Each is a parameter: an
  operation of the hub is a transition of the hub's state \<open>'h\<close> that also returns the Go
  error, an operation of the engine is a transition of the engine's state \<open>'g\<close> returning
  the error its result channel delivers, \<^verbatim>\<open>nuid.Next()\<close> is a transition of the
  generator's state \<open>'u\<close>, and \<open>'o\<close> is the type \<^verbatim>\<open>ChannelOptions\<close>. A decoder
  returns its error as \<open>Inl\<close>. Whatever the hub reaches through its clients counts as
  the hub's state; the node's own fields and counters are not among it. The node is taken
  after \<^verbatim>\<open>Run\<close>, with its engine attached.
\<close>

record ('h, 'g, 'u, 'o) Env =
  hub_unsubscribe :: "string \<Rightarrow> string \<Rightarrow> 'h \<Rightarrow> error option \<times> 'h"
  hub_disconnect :: "string \<Rightarrow> bool \<Rightarrow> 'h \<Rightarrow> error option \<times> 'h"
  hub_shutdown :: "'h \<Rightarrow> error option \<times> 'h"
  hub_NumSubscribers :: "string \<Rightarrow> 'h \<Rightarrow> int"
  hub_broadcastPublication :: "string \<Rightarrow> Publication \<Rightarrow> 'h \<Rightarrow> error option \<times> 'h"
  hub_broadcastJoin :: "string \<Rightarrow> Join \<Rightarrow> 'h \<Rightarrow> error option \<times> 'h"
  hub_broadcastLeave :: "string \<Rightarrow> Leave \<Rightarrow> 'h \<Rightarrow> error option \<times> 'h"
  engine_publish :: "string \<Rightarrow> Publication \<Rightarrow> 'o \<Rightarrow> 'g \<Rightarrow> error option \<times> 'g"
  engine_publishControl :: "Command \<Rightarrow> 'g \<Rightarrow> error option \<times> 'g"
  DecodeNode :: "bytes \<Rightarrow> error + ControlNode"
  DecodeUnsubscribe :: "bytes \<Rightarrow> error + ControlUnsubscribe"
  DecodeDisconnect :: "bytes \<Rightarrow> error + ControlDisconnect"
  EncodeUnsubscribe :: "ControlUnsubscribe \<Rightarrow> bytes \<times> error option"
  EncodeDisconnect :: "ControlDisconnect \<Rightarrow> bytes \<times> error option"
  DecodePublication :: "bytes \<Rightarrow> error + Publication"
  DecodeJoin :: "bytes \<Rightarrow> error + Join"
  DecodeLeave :: "bytes \<Rightarrow> error + Leave"
  channelOpts :: "Config \<Rightarrow> string \<Rightarrow> 'o option"
  nuid_Next :: "'u \<Rightarrow> string \<times> 'u"

text \<open>
  The state a call of the node can read or change: the fields of \<^verbatim>\<open>Node\<close> (the
  registry field \<^verbatim>\<open>nodes\<close> is called \<open>registry\<close> here), the entries handed to
  \<^verbatim>\<open>n.logger.log\<close> so far, the two counter vectors of the metrics this file
  increments, each a count per label, and the state of the \<^verbatim>\<open>nuid\<close> generator.
  The shutdown channel is open or closed.
\<close>

datatype chan = ChanOpen | ChanClosed

record ('h, 'g, 'u) Node =
  uid :: string
  config :: Config
  hub :: 'h
  engine :: 'g
  registry :: nodeRegistry
  shutdown :: bool
  shutdownCh :: chan
  logged :: "LogEntry list"
  messagesSentCount :: "string \<Rightarrow> nat"
  messagesReceivedCount :: "string \<Rightarrow> nat"
  nuid :: 'u

definition Inc :: "(string \<Rightarrow> nat) \<Rightarrow> string \<Rightarrow> (string \<Rightarrow> nat)" where
  "Inc counter label = counter(label := counter label + 1)"

definition logger_log :: "LogEntry \<Rightarrow> ('h, 'g, 'u) Node \<Rightarrow> ('h, 'g, 'u) Node" where
  "logger_log entry n = n\<lparr>logged := logged n @ [entry]\<rparr>"

text \<open>
  \<^verbatim>\<open>Node.Shutdown\<close>. Closing a closed channel panics; the mutex is not modelled (one
  call at a time).
\<close>

definition Shutdown ::
  "('h, 'g, 'u, 'o) Env \<Rightarrow> ('h, 'g, 'u) Node \<Rightarrow> panic + (error option \<times> ('h, 'g, 'u) Node)" where
  "Shutdown env n =
     (if shutdown n then Inr (None, n)
      else if shutdownCh n = ChanClosed then Inl CloseOfClosedChannel
      else let n1 = n\<lparr>shutdown := True, shutdownCh := ChanClosed\<rparr>
           in case hub_shutdown env (hub n1) of (err, h) \<Rightarrow> Inr (err, n1\<lparr>hub := h\<rparr>))"

text \<open>\<^verbatim>\<open>Node.nodeCmd\<close>.\<close>

definition nodeCmd ::
  "int64 \<Rightarrow> ControlNode \<Rightarrow> ('h, 'g, 'u) Node \<Rightarrow> error option \<times> ('h, 'g, 'u) Node" where
  "nodeCmd now node n = (None, n\<lparr>registry := add now node (registry n)\<rparr>)"

text \<open>
  \<^verbatim>\<open>Node.handleControl\<close>; \<open>now\<close> is the clock read by \<^verbatim>\<open>nodeRegistry.add\<close>.
\<close>

definition handleControl ::
  "('h, 'g, 'u, 'o) Env \<Rightarrow> int64 \<Rightarrow> Command \<Rightarrow> ('h, 'g, 'u) Node
    \<Rightarrow> error option \<times> ('h, 'g, 'u) Node" where
  "handleControl env now cmd n =
     (let n1 = n\<lparr>messagesReceivedCount := Inc (messagesReceivedCount n) ''control''\<rparr> in
      if cmd_UID cmd = uid n1 then (None, n1)
      else let method = cmd_Method cmd; params = cmd_Params cmd in
        case method of
          MethodTypeNode \<Rightarrow>
            (case DecodeNode env params of
               Inl err \<Rightarrow>
                 (Some err,
                  logger_log (newLogEntry LogLevelError ''error decoding node control params''
                    [(''error'', ErrorText err)]) n1)
             | Inr c \<Rightarrow> nodeCmd now c n1)
        | MethodTypeUnsubscribe \<Rightarrow>
            (case DecodeUnsubscribe env params of
               Inl err \<Rightarrow>
                 (Some err,
                  logger_log (newLogEntry LogLevelError ''error decoding unsubscribe control params''
                    [(''error'', ErrorText err)]) n1)
             | Inr c \<Rightarrow>
                 (case hub_unsubscribe env (unsub_User c) (unsub_Channel c) (hub n1) of
                    (err, h) \<Rightarrow> (err, n1\<lparr>hub := h\<rparr>)))
        | MethodTypeDisconnect \<Rightarrow>
            (case DecodeDisconnect env params of
               Inl err \<Rightarrow>
                 (Some err,
                  logger_log (newLogEntry LogLevelError ''error decoding disconnect control params''
                    [(''error'', ErrorText err)]) n1)
             | Inr c \<Rightarrow>
                 (case hub_disconnect env (disc_User c) False (hub n1) of
                    (err, h) \<Rightarrow> (err, n1\<lparr>hub := h\<rparr>)))
        | MethodTypeOther v \<Rightarrow>
            (Some (ErrControlMethodNotFound method),
             logger_log (newLogEntry LogLevelError ''unknown control message method''
               [(''method'', MethodValue method)]) n1))"

text \<open>\<^verbatim>\<open>Node.handlePublication\<close>, \<^verbatim>\<open>handleJoin\<close> and \<^verbatim>\<open>handleLeave\<close>.\<close>

definition handlePublication ::
  "('h, 'g, 'u, 'o) Env \<Rightarrow> string \<Rightarrow> Publication \<Rightarrow> ('h, 'g, 'u) Node
    \<Rightarrow> error option \<times> ('h, 'g, 'u) Node" where
  "handlePublication env ch publication n =
     (let n1 = n\<lparr>messagesReceivedCount := Inc (messagesReceivedCount n) ''publication''\<rparr>;
          numSubscribers = hub_NumSubscribers env ch (hub n1);
          hasCurrentSubscribers = (numSubscribers > 0)
      in if \<not> hasCurrentSubscribers then (None, n1)
         else case hub_broadcastPublication env ch publication (hub n1) of
                (err, h) \<Rightarrow> (err, n1\<lparr>hub := h\<rparr>))"

definition handleJoin ::
  "('h, 'g, 'u, 'o) Env \<Rightarrow> string \<Rightarrow> Join \<Rightarrow> ('h, 'g, 'u) Node
    \<Rightarrow> error option \<times> ('h, 'g, 'u) Node" where
  "handleJoin env ch join n =
     (let n1 = n\<lparr>messagesReceivedCount := Inc (messagesReceivedCount n) ''join''\<rparr>;
          hasCurrentSubscribers = (hub_NumSubscribers env ch (hub n1) > 0)
      in if \<not> hasCurrentSubscribers then (None, n1)
         else case hub_broadcastJoin env ch join (hub n1) of
                (err, h) \<Rightarrow> (err, n1\<lparr>hub := h\<rparr>))"

definition handleLeave ::
  "('h, 'g, 'u, 'o) Env \<Rightarrow> string \<Rightarrow> Leave \<Rightarrow> ('h, 'g, 'u) Node
    \<Rightarrow> error option \<times> ('h, 'g, 'u) Node" where
  "handleLeave env ch leave n =
     (let n1 = n\<lparr>messagesReceivedCount := Inc (messagesReceivedCount n) ''leave''\<rparr>;
          hasCurrentSubscribers = (hub_NumSubscribers env ch (hub n1) > 0)
      in if \<not> hasCurrentSubscribers then (None, n1)
         else case hub_broadcastLeave env ch leave (hub n1) of
                (err, h) \<Rightarrow> (err, n1\<lparr>hub := h\<rparr>))"

text \<open>
  \<^verbatim>\<open>Node.handleClientMessage\<close>. The error a handler returns is discarded by the
  caller; only a decoding error is returned.
\<close>

definition handleClientMessage ::
  "('h, 'g, 'u, 'o) Env \<Rightarrow> Message \<Rightarrow> ('h, 'g, 'u) Node \<Rightarrow> error option \<times> ('h, 'g, 'u) Node" where
  "handleClientMessage env message n =
     (case msg_Type message of
        MessageTypePublication \<Rightarrow>
          (case DecodePublication env (msg_Data message) of
             Inl err \<Rightarrow> (Some err, n)
           | Inr publication \<Rightarrow>
               (None, snd (handlePublication env (msg_Channel message) publication n)))
      | MessageTypeJoin \<Rightarrow>
          (case DecodeJoin env (msg_Data message) of
             Inl err \<Rightarrow> (Some err, n)
           | Inr join \<Rightarrow> (None, snd (handleJoin env (msg_Channel message) join n)))
      | MessageTypeLeave \<Rightarrow>
          (case DecodeLeave env (msg_Data message) of
             Inl err \<Rightarrow> (Some err, n)
           | Inr leave \<Rightarrow> (None, snd (handleLeave env (msg_Channel message) leave n)))
      | MessageTypeOther v \<Rightarrow> (None, n))"

text \<open>
  \<^verbatim>\<open>Node.ChannelOpts\<close>: the options of the channel's namespace, \<open>None\<close> when the
  second result is false.
\<close>

definition ChannelOpts ::
  "('h, 'g, 'u, 'o) Env \<Rightarrow> ('h, 'g, 'u) Node \<Rightarrow> string \<Rightarrow> panic + 'o option" where
  "ChannelOpts env n ch =
     (case namespaceName (config n) ch of
        Inl p \<Rightarrow> Inl p
      | Inr name \<Rightarrow> Inr (channelOpts env (config n) name))"

text \<open>
  \<^verbatim>\<open>Node.publish\<close>. The publication is a pointer the call may write to: the model
  returns it with the error the result channel delivers. \<^verbatim>\<open>Node.Publish\<close> receives
  from that channel.
\<close>

definition publish ::
  "('h, 'g, 'u, 'o) Env \<Rightarrow> string \<Rightarrow> Publication \<Rightarrow> 'o option \<Rightarrow> ('h, 'g, 'u) Node
    \<Rightarrow> panic + (error option \<times> Publication \<times> ('h, 'g, 'u) Node)" where
  "publish env ch pub opts n =
     (case (case opts of None \<Rightarrow> ChannelOpts env n ch | Some chOpts \<Rightarrow> Inr (Some chOpts)) of
        Inl p \<Rightarrow> Inl p
      | Inr None \<Rightarrow> Inr (Some ErrNamespaceNotFound, pub, n)
      | Inr (Some chOpts) \<Rightarrow>
          (let n1 = n\<lparr>messagesSentCount := Inc (messagesSentCount n) ''publication''\<rparr> in
           case (if pub_UID pub = []
                 then (case nuid_Next env (nuid n1) of
                         (next_id, u) \<Rightarrow> (pub\<lparr>pub_UID := next_id\<rparr>, n1\<lparr>nuid := u\<rparr>))
                 else (pub, n1)) of
             (pub1, n2) \<Rightarrow>
               (case engine_publish env ch pub1 chOpts (engine n2) of
                  (err, g) \<Rightarrow> Inr (err, pub1, n2\<lparr>engine := g\<rparr>))))"

definition Publish ::
  "('h, 'g, 'u, 'o) Env \<Rightarrow> string \<Rightarrow> Publication \<Rightarrow> ('h, 'g, 'u) Node
    \<Rightarrow> panic + (error option \<times> Publication \<times> ('h, 'g, 'u) Node)" where
  "Publish env ch pub n = publish env ch pub None n"

text \<open>
  \<^verbatim>\<open>Node.publishControl\<close>, \<^verbatim>\<open>pubUnsubscribe\<close> and \<^verbatim>\<open>pubDisconnect\<close>. The error
  of an encoder is discarded by the caller.
\<close>

definition publishControl ::
  "('h, 'g, 'u, 'o) Env \<Rightarrow> Command \<Rightarrow> ('h, 'g, 'u) Node \<Rightarrow> error option \<times> ('h, 'g, 'u) Node" where
  "publishControl env msg n =
     (let n1 = n\<lparr>messagesSentCount := Inc (messagesSentCount n) ''control''\<rparr>
      in case engine_publishControl env msg (engine n1) of
           (err, g) \<Rightarrow> (err, n1\<lparr>engine := g\<rparr>))"

definition pubUnsubscribe ::
  "('h, 'g, 'u, 'o) Env \<Rightarrow> string \<Rightarrow> string \<Rightarrow> ('h, 'g, 'u) Node
    \<Rightarrow> error option \<times> ('h, 'g, 'u) Node" where
  "pubUnsubscribe env user ch n =
     (let unsubscribe = \<lparr>unsub_User = user, unsub_Channel = ch\<rparr>;
          params = fst (EncodeUnsubscribe env unsubscribe);
          cmd = \<lparr>cmd_UID = uid n, cmd_Method = MethodTypeUnsubscribe, cmd_Params = params\<rparr>
      in publishControl env cmd n)"

definition pubDisconnect ::
  "('h, 'g, 'u, 'o) Env \<Rightarrow> string \<Rightarrow> bool \<Rightarrow> ('h, 'g, 'u) Node
    \<Rightarrow> error option \<times> ('h, 'g, 'u) Node" where
  "pubDisconnect env user reconnect n =
     (let disconnect = \<lparr>disc_User = user\<rparr>;
          params = fst (EncodeDisconnect env disconnect);
          cmd = \<lparr>cmd_UID = uid n, cmd_Method = MethodTypeDisconnect, cmd_Params = params\<rparr>
      in publishControl env cmd n)"

text \<open>\<^verbatim>\<open>Node.Unsubscribe\<close> and \<^verbatim>\<open>Node.Disconnect\<close>.\<close>

definition Unsubscribe ::
  "('h, 'g, 'u, 'o) Env \<Rightarrow> string \<Rightarrow> string \<Rightarrow> ('h, 'g, 'u) Node
    \<Rightarrow> panic + (error option \<times> ('h, 'g, 'u) Node)" where
  "Unsubscribe env user ch n =
     (if user = [] then Inr (Some ErrBadRequest, n)
      else
        (case (if ch \<noteq> []
               then (case ChannelOpts env n ch of
                       Inl p \<Rightarrow> Inl p
                     | Inr found \<Rightarrow> Inr (found \<noteq> None))
               else Inr True) of
           Inl p \<Rightarrow> Inl p
         | Inr ok \<Rightarrow>
             (if \<not> ok then Inr (Some ErrNamespaceNotFound, n)
              else
                (case hub_unsubscribe env user ch (hub n) of
                   (Some err, h) \<Rightarrow> Inr (Some ErrInternalServerError, n\<lparr>hub := h\<rparr>)
                 | (None, h) \<Rightarrow>
                     (case pubUnsubscribe env user ch (n\<lparr>hub := h\<rparr>) of
                        (Some err, n') \<Rightarrow> Inr (Some ErrInternalServerError, n')
                      | (None, n') \<Rightarrow> Inr (None, n'))))))"

definition Disconnect ::
  "('h, 'g, 'u, 'o) Env \<Rightarrow> string \<Rightarrow> bool \<Rightarrow> ('h, 'g, 'u) Node
    \<Rightarrow> error option \<times> ('h, 'g, 'u) Node" where
  "Disconnect env user reconnect n =
     (if user = [] then (Some ErrBadRequest, n)
      else
        (case hub_disconnect env user reconnect (hub n) of
           (Some err, h) \<Rightarrow> (Some ErrInternalServerError, n\<lparr>hub := h\<rparr>)
         | (None, h) \<Rightarrow>
             (case pubDisconnect env user reconnect (n\<lparr>hub := h\<rparr>) of
                (Some err, n') \<Rightarrow> (Some ErrInternalServerError, n')
              | (None, n') \<Rightarrow> (None, n'))))"

section \<open>The channel grammar as the specification words it\<close>

text \<open>
  \<open>before_first b s\<close> is the part of \<open>s\<close> before the first occurrence of \<open>b\<close>, and
  \<open>after_last b s\<close> the part of \<open>s\<close> after the last occurrence of \<open>b\<close>; both are
  \<open>None\<close> when \<open>b\<close> does not occur in \<open>s\<close>. \<open>spec_namespaceName\<close> and
  \<open>spec_userAllowed\<close> follow the sentences of the specification, not the code.
\<close>

fun before_first :: "string \<Rightarrow> string \<Rightarrow> string option" where
  "before_first b [] = (if b = [] then Some [] else None)"
| "before_first b (c # cs) =
     (if prefix b (c # cs) then Some [] else map_option ((#) c) (before_first b cs))"

fun after_last :: "string \<Rightarrow> string \<Rightarrow> string option" where
  "after_last b [] = (if b = [] then Some [] else None)"
| "after_last b (c # cs) =
     (case after_last b cs of
        Some seg \<Rightarrow> Some seg
      | None \<Rightarrow> if prefix b (c # cs) then Some (drop (length b) (c # cs)) else None)"

definition spec_namespaceName :: "Config \<Rightarrow> string \<Rightarrow> string" where
  "spec_namespaceName c ch =
     (let remainder = (if prefix (ChannelPrivatePrefix c) ch
                       then drop (length (ChannelPrivatePrefix c)) ch else ch)
      in case before_first (ChannelNamespaceBoundary c) remainder of
           None \<Rightarrow> []
         | Some ns \<Rightarrow> ns)"

definition spec_userAllowed :: "Config \<Rightarrow> string \<Rightarrow> string \<Rightarrow> bool" where
  "spec_userAllowed c ch user =
     (case after_last (ChannelUserBoundary c) ch of
        None \<Rightarrow> True
      | Some seg \<Rightarrow> user \<in> set (Split seg (ChannelUserSeparator c)))"

text \<open>
  A boundary is unbordered when no proper non-empty suffix of it is a prefix of it, so
  that two occurrences of it cannot overlap. Every boundary of one character is.
\<close>

definition unbordered :: "string \<Rightarrow> bool" where
  "unbordered b = (\<forall>k \<in> {1..<length b}. drop k b \<noteq> take (length b - k) b)"

text \<open>
  \<open>expired\<close> is the test the loop of \<^verbatim>\<open>nodeRegistry.clean\<close> makes on a timed
  record. \<open>older_than_delay\<close> is the specification's condition, the time of the record
  being older than \<open>now - delay\<close>, in nanoseconds. \<open>difference_fits\<close> says that
  \<open>now\<close> less the time of the record is an \<^verbatim>\<open>int64\<close>, as it is for any two times a
  clock gives. Every registry made by \<^verbatim>\<open>newNodeRegistry\<close>, \<^verbatim>\<open>add\<close> and
  \<^verbatim>\<open>clean\<close> has a time for every record (\<open>every_record_timed\<close>).
\<close>

definition expired :: "int64 \<Rightarrow> (string \<Rightarrow> int64) \<Rightarrow> nodeRegistry \<Rightarrow> string \<Rightarrow> bool" where
  "expired secs now r u =
     (case map_of (updates r) u of None \<Rightarrow> False | Some t \<Rightarrow> secs <s now u - t)"



definition every_record_timed :: "nodeRegistry \<Rightarrow> bool" where
  "every_record_timed r = (\<forall>u \<in> fst ` set (nodes r). map_of (updates r) u \<noteq> None)"

text \<open>The registries the node can build.\<close>

inductive built :: "nodeRegistry \<Rightarrow> bool" where
  built_new: "built (newNodeRegistry u)"
| built_add: "built r \<Longrightarrow> built (add now info r)"
| built_clean: "built r \<Longrightarrow> built (clean delay now r)"




section \<open>A concrete node\<close>

text \<open>
  An instance on which the theorems are evaluated: a hub and an engine whose state is the
  list of the calls made to them, decoders for a toy encoding, a configuration with the
  usual delimiters and the namespace \<open>chat\<close>, and a generator of numbered ids.
\<close>

datatype hub_call =
  HubUnsubscribe string string | HubDisconnect string bool | HubShutdown
| HubBroadcastPublication string Publication

datatype engine_call = EnginePublish string Publication | EnginePublishControl Command

definition test_env :: "(hub_call list, engine_call list, nat, nat) Env" where
  "test_env =
     \<lparr>hub_unsubscribe = (\<lambda>user ch h. (None, h @ [HubUnsubscribe user ch])),
      hub_disconnect = (\<lambda>user reconnect h. (None, h @ [HubDisconnect user reconnect])),
      hub_shutdown = (\<lambda>h. (None, h @ [HubShutdown])),
      hub_NumSubscribers = (\<lambda>ch h. 1),
      hub_broadcastPublication = (\<lambda>ch p h. (None, h @ [HubBroadcastPublication ch p])),
      hub_broadcastJoin = (\<lambda>ch j h. (None, h)),
      hub_broadcastLeave = (\<lambda>ch l h. (None, h)),
      engine_publish = (\<lambda>ch p opts g. (None, g @ [EnginePublish ch p])),
      engine_publishControl = (\<lambda>cmd g. (None, g @ [EnginePublishControl cmd])),
      DecodeNode = (\<lambda>b. Inl (ErrOther ''unexpected end of input'')),
      DecodeUnsubscribe =
        (\<lambda>b. Inr \<lparr>unsub_User = takeWhile (\<lambda>c. c \<noteq> CHR ''|'') b,
                  unsub_Channel = drop 1 (dropWhile (\<lambda>c. c \<noteq> CHR ''|'') b)\<rparr>),
      DecodeDisconnect = (\<lambda>b. Inr \<lparr>disc_User = b\<rparr>),
      EncodeUnsubscribe = (\<lambda>u. (unsub_User u @ ''|'' @ unsub_Channel u, None)),
      EncodeDisconnect = (\<lambda>d. (disc_User d, None)),
      DecodePublication = (\<lambda>b. Inr \<lparr>pub_UID = ''p1'', pub_Data = b\<rparr>),
      DecodeJoin = (\<lambda>b. Inl (ErrOther ''unexpected end of input'')),
      DecodeLeave = (\<lambda>b. Inl (ErrOther ''unexpected end of input'')),
      channelOpts = (\<lambda>c name. if name = [] \<or> name = ''chat'' then Some 0 else None),
      nuid_Next = (\<lambda>k. (''nuid'' @ replicate (Suc k) CHR ''A'', Suc k))\<rparr>"

definition test_config :: Config where
  "test_config =
     \<lparr>Name = ''n1'', Version = ''0.1'', ChannelPrivatePrefix = ''$'',
      ChannelNamespaceBoundary = '':'', ChannelUserBoundary = ''#'',
      ChannelUserSeparator = '','', ChannelClientBoundary = ''&''\<rparr>"

definition test_node :: "(hub_call list, engine_call list, nat) Node" where
  "test_node =
     \<lparr>uid = ''N1'', config = test_config, hub = [], engine = [],
      registry = newNodeRegistry ''N1'', shutdown = False, shutdownCh = ChanOpen,
      logged = [], messagesSentCount = (\<lambda>l. 0), messagesReceivedCount = (\<lambda>l. 0),
      nuid = 0\<rparr>"



text \<open>The same collaborators with a hub whose unsubscribe fails, and with an engine whose
  control publication fails.\<close>

definition test_env_hub_fails :: "(hub_call list, engine_call list, nat, nat) Env" where
  "test_env_hub_fails =
     test_env\<lparr>hub_unsubscribe := (\<lambda>user ch h. (Some (ErrOther ''hub failure''), h))\<rparr>"

definition test_env_engine_fails :: "(hub_call list, engine_call list, nat, nat) Env" where
  "test_env_engine_fails =
     test_env\<lparr>engine_publishControl :=
       (\<lambda>cmd g. (Some (ErrOther ''engine failure''), g @ [EnginePublishControl cmd]))\<rparr>"

section \<open>Facts about the string functions\<close>

lemma Index_Some_decomp:
  "Index s sep = Some i \<Longrightarrow> s = take i s @ sep @ drop (i + length sep) s"
proof (induction s arbitrary: i)
  case Nil
  then show ?case by (simp split: if_splits)
next
  case (Cons c cs)
  show ?case
  proof (cases "prefix sep (c # cs)")
    case True
    with Cons.prems have "i = 0" by simp
    moreover from True obtain post where "c # cs = sep @ post" by (auto simp: prefix_def)
    ultimately show ?thesis by simp
  next
    case False
    with Cons.prems obtain j where j: "Index cs sep = Some j" "i = Suc j" by auto
    from Cons.IH [OF j(1)] j(2) show ?thesis by simp
  qed
qed

lemma Index_Some_iff: "Index s sep \<noteq> None \<longleftrightarrow> (\<exists>pre post. s = pre @ sep @ post)"
proof (induction s)
  case Nil
  then show ?case by auto
next
  case (Cons c cs)
  show ?case
  proof (cases "prefix sep (c # cs)")
    case True
    then obtain post where "c # cs = [] @ sep @ post" by (auto simp: prefix_def)
    then have "\<exists>pre post. c # cs = pre @ sep @ post" by blast
    moreover from True have "Index (c # cs) sep \<noteq> None" by simp
    ultimately show ?thesis by simp
  next
    case False
    have "(\<exists>pre post. c # cs = pre @ sep @ post) \<longleftrightarrow> (\<exists>pre post. cs = pre @ sep @ post)"
    proof
      assume "\<exists>pre post. c # cs = pre @ sep @ post"
      then obtain pre post where eq: "c # cs = pre @ sep @ post" by blast
      show "\<exists>pre post. cs = pre @ sep @ post"
      proof (cases pre)
        case Nil
        with eq False show ?thesis by (simp add: prefix_def)
      next
        case (Cons a pre')
        with eq show ?thesis by auto
      qed
    next
      assume "\<exists>pre post. cs = pre @ sep @ post"
      then obtain pre post where "cs = pre @ sep @ post" by blast
      then have "c # cs = (c # pre) @ sep @ post" by simp
      then show "\<exists>pre post. c # cs = pre @ sep @ post" by blast
    qed
    moreover from False have "Index (c # cs) sep \<noteq> None \<longleftrightarrow> Index cs sep \<noteq> None"
      by simp
    ultimately show ?thesis using Cons.IH by simp
  qed
qed

lemma Contains_iff: "Contains s sep \<longleftrightarrow> (\<exists>pre post. s = pre @ sep @ post)"
  unfolding Contains_def by (rule Index_Some_iff)

text \<open>\<^verbatim>\<open>Index\<close> finds the first occurrence: no occurrence starts before it.\<close>

lemma Index_first:
  "Index s sep = Some i \<Longrightarrow> s = pre @ sep @ post \<Longrightarrow> i \<le> length pre"
proof (induction s arbitrary: i pre)
  case Nil
  then show ?case by (simp split: if_splits)
next
  case (Cons c cs)
  show ?case
  proof (cases "prefix sep (c # cs)")
    case True
    with Cons.prems(1) show ?thesis by simp
  next
    case False
    with Cons.prems(1) obtain j where j: "Index cs sep = Some j" "i = Suc j" by auto
    from False Cons.prems(2) obtain a pre' where pre: "pre = a # pre'"
      by (cases pre) (auto simp: prefix_def)
    with Cons.prems(2) have "cs = pre' @ sep @ post" by simp
    from Cons.IH [OF j(1) this] j(2) pre show ?thesis by simp
  qed
qed

lemma before_first_Index: "before_first b s = map_option (\<lambda>m. take m s) (Index s b)"
  by (induction s) (auto simp add: option.map_comp comp_def)

text \<open>\<open>before_first\<close> is what its name says: the shortest prefix that \<open>b\<close> follows.\<close>

lemma before_first_shortest:
  assumes "before_first b s = Some ns"
  shows "(\<exists>post. s = ns @ b @ post)
       \<and> (\<forall>pre post. s = pre @ b @ post \<longrightarrow> length ns \<le> length pre)"
proof -
  from assms obtain i where i: "Index s b = Some i" and ns: "ns = take i s"
    by (auto simp add: before_first_Index)
  from Index_Some_decomp [OF i] ns have "\<exists>post. s = ns @ b @ post" by blast
  moreover have "length ns \<le> length pre" if "s = pre @ b @ post" for pre post
    using Index_first [OF i that] ns by simp
  ultimately show ?thesis by blast
qed

lemma splitLoop_nonempty: "splitLoop k s sep \<noteq> []"
  by (cases k) (simp_all split: option.split)

lemma last_Split_step:
  assumes "sep \<noteq> []" "Index s sep = Some i"
  shows "last (splitLoop (Count s sep) s sep)
           = last (splitLoop (Count (drop (i + length sep) s) sep) (drop (i + length sep) s) sep)"
  using assms by (simp add: Count.simps [of s sep] splitLoop_nonempty)

lemma Split_none:
  assumes "sep \<noteq> []" "Index s sep = None"
  shows "splitLoop (Count s sep) s sep = [s]"
  using assms by (simp add: Count.simps [of s sep])

text \<open>
  The last piece of a split at a non-empty separator follows an occurrence of the
  separator and contains none.
\<close>

lemma last_Split_decomp:
  assumes "sep \<noteq> []"
  shows "\<not> Contains (last (splitLoop (Count s sep) s sep)) sep
       \<and> (Contains s sep \<longrightarrow> (\<exists>pre. s = pre @ sep @ last (splitLoop (Count s sep) s sep)))"
  using assms
proof (induction s sep rule: Count.induct)
  case (1 s sep)
  show ?case
  proof (cases "Index s sep")
    case None
    with "1.prems" show ?thesis by (simp add: Split_none Contains_def)
  next
    case (Some i)
    let ?rest = "drop (i + length sep) s"
    let ?seg = "last (splitLoop (Count ?rest sep) ?rest sep)"
    have IH: "\<not> Contains ?seg sep \<and> (Contains ?rest sep \<longrightarrow> (\<exists>pre. ?rest = pre @ sep @ ?seg))"
      using "1.IH" [OF "1.prems" Some "1.prems"] .
    have seg: "last (splitLoop (Count s sep) s sep) = ?seg"
      using last_Split_step [OF "1.prems" Some] .
    have s: "s = take i s @ sep @ ?rest"
      using Index_Some_decomp [OF Some] .
    have "\<exists>pre. s = pre @ sep @ ?seg"
    proof (cases "Contains ?rest sep")
      case True
      with IH obtain pre where "?rest = pre @ sep @ ?seg" by blast
      with s have "s = (take i s @ sep @ pre) @ sep @ ?seg" by simp
      then show ?thesis by blast
    next
      case False
      then have "Index ?rest sep = None" by (simp add: Contains_def)
      then have "?seg = ?rest" using "1.prems" by (simp add: Split_none)
      with s show ?thesis by metis
    qed
    with IH seg show ?thesis by simp
  qed
qed

lemma after_last_None_iff: "after_last b s = None \<longleftrightarrow> \<not> Contains s b"
proof (induction s)
  case Nil
  then show ?case by (simp add: Contains_def)
next
  case (Cons c cs)
  then show ?case by (auto simp add: Contains_def split: option.splits)
qed

lemma after_last_decomp: "after_last b s = Some seg \<Longrightarrow> \<exists>pre. s = pre @ b @ seg"
proof (induction s)
  case Nil
  then show ?case by (simp split: if_splits)
next
  case (Cons c cs)
  show ?case
  proof (cases "after_last b cs")
    case None
    with Cons.prems have "prefix b (c # cs)" and "seg = drop (length b) (c # cs)"
      by (auto split: if_splits)
    then have "c # cs = [] @ b @ seg" by (auto simp: prefix_def)
    then show ?thesis by blast
  next
    case (Some seg')
    with Cons.prems have "seg' = seg" by simp
    with Some Cons.IH obtain pre where "cs = pre @ b @ seg" by blast
    then have "c # cs = (c # pre) @ b @ seg" by simp
    then show ?thesis by blast
  qed
qed

text \<open>\<open>after_last\<close> is what its name says: no occurrence of \<open>b\<close> ends later.\<close>

lemma after_last_shortest:
  "after_last b s = Some seg \<Longrightarrow> s = pre' @ b @ seg' \<Longrightarrow> length seg \<le> length seg'"
proof (induction s arbitrary: pre')
  case Nil
  then show ?case by (simp split: if_splits)
next
  case (Cons c cs)
  show ?case
  proof (cases pre')
    case Nil
    with Cons.prems(2) have len: "length seg' = length (c # cs) - length b" by simp
    from after_last_decomp [OF Cons.prems(1)] obtain pre where "c # cs = pre @ b @ seg" ..
    then have "length (c # cs) = length pre + length b + length seg" by simp
    with len show ?thesis by simp
  next
    case (Cons a pre'')
    with Cons.prems(2) have cs: "cs = pre'' @ b @ seg'" by simp
    then have "Contains cs b" by (auto simp add: Contains_iff)
    then obtain x where x: "after_last b cs = Some x"
      using after_last_None_iff [of b cs] by (cases "after_last b cs") auto
    with Cons.prems(1) have "x = seg" by simp
    with x cs Cons.IH show ?thesis by blast
  qed
qed

text \<open>
  Two occurrences of \<open>b\<close> at different places: the later one lies inside what follows
  the earlier one, or the two overlap and \<open>b\<close> has a border.
\<close>

lemma two_occurrences:
  assumes eq: "p1 @ b @ s1 = p2 @ b @ s2" and lt: "length p1 < length p2"
  shows "Contains s1 b \<or> (\<exists>k. 0 < k \<and> k < length b \<and> drop k b = take (length b - k) b)"
proof -
  define k where "k = length p2 - length p1"
  have k: "0 < k" "length p2 = length p1 + k" using lt by (auto simp: k_def)
  have "drop (length p2) (p1 @ b @ s1) = b @ s2" using eq by simp
  then have d: "drop k (b @ s1) = b @ s2" using k by simp
  show ?thesis
  proof (cases "k < length b")
    case True
    with d have "drop k b @ s1 = b @ s2" by simp
    then have "take (length b - k) (drop k b @ s1) = take (length b - k) (b @ s2)" by simp
    then have "drop k b = take (length b - k) b" by simp
    with True k show ?thesis by blast
  next
    case False
    with d have "drop (k - length b) s1 = b @ s2" by simp
    then have "s1 = take (k - length b) s1 @ b @ s2"
      by (metis append_take_drop_id)
    then show ?thesis by (auto simp add: Contains_iff)
  qed
qed

lemma last_Split_after_last:
  assumes "b \<noteq> []" "unbordered b" "Contains s b"
  shows "after_last b s = Some (last (splitLoop (Count s b) s b))"
proof -
  let ?seg1 = "last (splitLoop (Count s b) s b)"
  from last_Split_decomp [OF assms(1), of s] assms(3)
  obtain p1 where p1: "s = p1 @ b @ ?seg1" and free: "\<not> Contains ?seg1 b" by blast
  from assms(3) obtain seg2 where seg2: "after_last b s = Some seg2"
    using after_last_None_iff [of b s] by (cases "after_last b s") auto
  from after_last_decomp [OF seg2] obtain p2 where p2: "s = p2 @ b @ seg2" ..
  have "length seg2 \<le> length ?seg1" using after_last_shortest [OF seg2 p1] .
  moreover have "length s = length p1 + length b + length ?seg1"
    by (subst p1) simp
  moreover have "length s = length p2 + length b + length seg2"
    by (subst p2) simp
  ultimately have le: "length p1 \<le> length p2" by simp
  have "\<not> length p1 < length p2"
  proof
    assume lt: "length p1 < length p2"
    from p1 p2 have "p1 @ b @ ?seg1 = p2 @ b @ seg2" by simp
    from two_occurrences [OF this lt] free
    obtain k where "0 < k" "k < length b" "drop k b = take (length b - k) b" by blast
    with assms(2) show False by (auto simp add: unbordered_def)
  qed
  with le have "length p1 = length p2" by simp
  with p1 p2 have "?seg1 = seg2" by (metis append_eq_append_conv same_append_eq)
  with seg2 show ?thesis by simp
qed

lemma unbordered_single: "length b = 1 \<Longrightarrow> unbordered b"
  by (simp add: unbordered_def)

lemma userInList_iff: "userInList user xs \<longleftrightarrow> user \<in> set xs"
  by (induction xs) auto

lemma Split_last_piece:
  "sep \<noteq> [] \<Longrightarrow> Split s sep \<noteq> [] \<and> Split s sep ! (length (Split s sep) - 1)
      = last (splitLoop (Count s sep) s sep)"
  by (simp add: Split_def genSplit_def splitLoop_nonempty last_conv_nth)

text \<open>With a non-empty boundary \<open>namespaceName\<close> returns, and so does the lookup of the options.\<close>

lemma namespaceName_returns:
  "ChannelNamespaceBoundary c \<noteq> [] \<Longrightarrow> \<exists>ns. namespaceName c ch = Inr ns"
  by (simp add: namespaceName_def Let_def SplitN_def genSplit_def splitLoop_nonempty
      split: option.split)

lemma ChannelOpts_returns:
  assumes "ChannelNamespaceBoundary (config n) \<noteq> []"
  shows "\<exists>found. ChannelOpts env n ch = Inr found"
proof -
  from namespaceName_returns [OF assms] obtain ns where "namespaceName (config n) ch = Inr ns"
    by blast
  then show ?thesis by (simp add: ChannelOpts_def)
qed

section \<open>Facts about floating point\<close>













section \<open>Facts about the registry\<close>

lemma clean_iter_currentUID [simp]: "currentUID (clean_iter secs now k r) = currentUID r"
  by (simp add: clean_iter_def split: option.split)

lemma clean_iter_updates:
  "map_of (updates (clean_iter secs now k r)) u =
     (if u = k \<and> k \<noteq> currentUID r \<and> expired secs now r k then None else map_of (updates r) u)"
  by (auto simp add: clean_iter_def expired_def AList.delete_conv' split: option.split)

lemma clean_iter_nodes:
  "map_of (nodes (clean_iter secs now k r)) u =
     (if u = k \<and> k \<noteq> currentUID r \<and> (map_of (updates r) k = None \<or> expired secs now r k)
      then None else map_of (nodes r) u)"
  by (auto simp add: clean_iter_def expired_def AList.delete_conv' split: option.split)

lemma clean_loop_currentUID [simp]: "currentUID (clean_loop secs now ks r) = currentUID r"
  by (induction ks arbitrary: r) simp_all

lemma clean_loop_updates:
  "map_of (updates (clean_loop secs now ks r)) u =
     (if u \<in> set ks \<and> u \<noteq> currentUID r \<and> expired secs now r u then None
      else map_of (updates r) u)"
proof (induction ks arbitrary: r)
  case Nil
  then show ?case by simp
next
  case (Cons k ks)
  have "map_of (updates (clean_loop secs now (k # ks) r)) u =
          map_of (updates (clean_loop secs now ks (clean_iter secs now k r))) u"
    by simp
  also have "\<dots> =
      (if u \<in> set ks \<and> u \<noteq> currentUID r \<and> expired secs now (clean_iter secs now k r) u
       then None else map_of (updates (clean_iter secs now k r)) u)"
    by (simp add: Cons.IH)
  also have "\<dots> =
      (if u \<in> set (k # ks) \<and> u \<noteq> currentUID r \<and> expired secs now r u then None
       else map_of (updates r) u)"
    by (auto simp add: clean_iter_updates expired_def)
  finally show ?case .
qed

text \<open>
  What the loop does to the records, whatever the registry: a record other than the
  node's own goes when it has no time or an expired one.
\<close>

lemma clean_loop_nodes:
  "map_of (nodes (clean_loop secs now ks r)) u =
     (if u \<in> set ks \<and> u \<noteq> currentUID r \<and> (map_of (updates r) u = None \<or> expired secs now r u)
      then None else map_of (nodes r) u)"
proof (induction ks arbitrary: r)
  case Nil
  then show ?case by simp
next
  case (Cons k ks)
  have "map_of (nodes (clean_loop secs now (k # ks) r)) u =
          map_of (nodes (clean_loop secs now ks (clean_iter secs now k r))) u"
    by simp
  also have "\<dots> =
      (if u \<in> set ks \<and> u \<noteq> currentUID r
          \<and> (map_of (updates (clean_iter secs now k r)) u = None
              \<or> expired secs now (clean_iter secs now k r) u)
       then None else map_of (nodes (clean_iter secs now k r)) u)"
    by (simp add: Cons.IH)
  also have "\<dots> =
      (if u \<in> set (k # ks) \<and> u \<noteq> currentUID r
          \<and> (map_of (updates r) u = None \<or> expired secs now r u)
       then None else map_of (nodes r) u)"
    by (auto simp add: clean_iter_updates clean_iter_nodes expired_def)
  finally show ?case .
qed

lemma clean_nodes:
  "map_of (nodes (clean delay now r)) u =
     (if u \<noteq> currentUID r
         \<and> (map_of (updates r) u = None \<or> expired (int64_of_float64 (Seconds delay)) now r u)
      then None else map_of (nodes r) u)"
  by (auto simp add: clean_def clean_loop_nodes map_of_eq_None_iff)

lemma clean_updates:
  "map_of (updates (clean delay now r)) u =
     (if map_of (nodes r) u \<noteq> None \<and> u \<noteq> currentUID r
         \<and> expired (int64_of_float64 (Seconds delay)) now r u
      then None else map_of (updates r) u)"
  by (auto simp add: clean_def clean_loop_updates map_of_eq_None_iff)



lemma newNodeRegistry_timed: "every_record_timed (newNodeRegistry u)"
  by (simp add: every_record_timed_def newNodeRegistry_def)

lemma add_timed: "every_record_timed r \<Longrightarrow> every_record_timed (add now info r)"
  by (auto simp add: every_record_timed_def add_def AList.dom_update AList.update_conv')

lemma clean_timed:
  assumes "every_record_timed r"
  shows "every_record_timed (clean delay now r)"
  unfolding every_record_timed_def
proof
  fix v assume "v \<in> fst ` set (nodes (clean delay now r))"
  then have "map_of (nodes (clean delay now r)) v \<noteq> None"
    by (simp add: map_of_eq_None_iff)
  then have "map_of (nodes r) v \<noteq> None"
    and "\<not> (v \<noteq> currentUID r \<and> expired (int64_of_float64 (Seconds delay)) now r v)"
    by (auto simp add: clean_nodes split: if_splits)
  moreover from this(1) assms have "map_of (updates r) v \<noteq> None"
    by (auto simp add: every_record_timed_def map_of_eq_None_iff)
  ultimately show "map_of (updates (clean delay now r)) v \<noteq> None"
    by (auto simp add: clean_updates)
qed

lemma built_timed: "built r \<Longrightarrow> every_record_timed r"
  by (induction rule: built.induct) (simp_all add: newNodeRegistry_timed add_timed clean_timed)

section \<open>Facts about the generator of ids\<close>






section \<open>Evaluations on the concrete node\<close>

lemma test_namespace_chat: "namespaceName test_config ''chat:lobby'' = Inr ''chat''"
  by code_simp

lemma test_namespace_nope: "namespaceName test_config ''nope:lobby'' = Inr ''nope''"
  by code_simp

lemma test_ChannelOpts_chat: "ChannelOpts test_env test_node ''chat:lobby'' = Inr (Some 0)"
  by (simp add: ChannelOpts_def test_node_def test_namespace_chat test_env_def)

lemma test_ChannelOpts_nope: "ChannelOpts test_env test_node ''nope:lobby'' = Inr None"
  by (simp add: ChannelOpts_def test_node_def test_namespace_nope test_env_def)

text \<open>
  With an empty boundary and nothing left after the private prefix, \<^verbatim>\<open>SplitN\<close>
  returns an empty slice and \<^verbatim>\<open>parts[0]\<close> panics; so does \<open>userAllowed\<close> on the
  empty channel with an empty user boundary.
\<close>

lemma namespaceName_panics:
  "namespaceName (test_config\<lparr>ChannelNamespaceBoundary := []\<rparr>) ''$'' = Inl IndexOutOfRange"
  by code_simp

lemma userAllowed_panics:
  "userAllowed (test_config\<lparr>ChannelUserBoundary := []\<rparr>) [] ''alice'' = Inl IndexOutOfRange"
  by code_simp

section \<open>The control plane\<close>

text \<open>
  C1. A control command whose UID is the node's own uid is suppressed: for every method
  and every params, \<open>handleControl\<close> returns nil and leaves the registry and the hub as
  they were.
\<close>

theorem handleControl_self_suppressed:
  assumes "cmd_UID cmd = uid n"
  shows "fst (handleControl env now cmd n) = None
       \<and> registry (snd (handleControl env now cmd n)) = registry n
       \<and> hub (snd (handleControl env now cmd n)) = hub n"
  using assms by (simp add: handleControl_def Let_def)

theorem handleControl_self_suppressed_witness:
  "cmd_UID \<lparr>cmd_UID = ''N1'', cmd_Method = MethodTypeDisconnect, cmd_Params = ''u1''\<rparr>
     = uid test_node
   \<and> fst (handleControl test_env 1000
            \<lparr>cmd_UID = ''N1'', cmd_Method = MethodTypeDisconnect, cmd_Params = ''u1''\<rparr>
            test_node) = None
   \<and> registry (snd (handleControl test_env 1000
            \<lparr>cmd_UID = ''N1'', cmd_Method = MethodTypeDisconnect, cmd_Params = ''u1''\<rparr>
            test_node)) = newNodeRegistry ''N1''
   \<and> hub (snd (handleControl test_env 1000
            \<lparr>cmd_UID = ''N1'', cmd_Method = MethodTypeDisconnect, cmd_Params = ''u1''\<rparr>
            test_node)) = []"
proof -
  have own: "cmd_UID \<lparr>cmd_UID = ''N1'', cmd_Method = MethodTypeDisconnect, cmd_Params = ''u1''\<rparr>
               = uid test_node"
    by (simp add: test_node_def)
  from handleControl_self_suppressed [OF own, of test_env 1000] own
  show ?thesis by (simp add: test_node_def)
qed

text \<open>
  C10. \<open>handleControl\<close> counts the command under the label \<open>control\<close> before it looks
  at the UID: after the call the counter is one higher, whoever sent the command; and for
  a command of the node's own that increment is all the call does. (The hub is a
  parameter acting on its own state; it does not touch the node's counters.)
\<close>

theorem handleControl_counts_control:
  "messagesReceivedCount (snd (handleControl env now cmd n)) ''control''
     = messagesReceivedCount n ''control'' + 1
   \<and> (cmd_UID cmd = uid n \<longrightarrow>
        handleControl env now cmd n =
          (None, n\<lparr>messagesReceivedCount :=
                      (messagesReceivedCount n)
                        (''control'' := messagesReceivedCount n ''control'' + 1)\<rparr>))"
  by (simp add: handleControl_def Let_def Inc_def nodeCmd_def logger_log_def
      split: MethodType.split sum.split prod.split)

theorem handleControl_counts_control_witness:
  "cmd_UID \<lparr>cmd_UID = ''N1'', cmd_Method = MethodTypeNode, cmd_Params = []\<rparr> = uid test_node
   \<and> handleControl test_env 1000
        \<lparr>cmd_UID = ''N1'', cmd_Method = MethodTypeNode, cmd_Params = []\<rparr> test_node
      = (None, test_node\<lparr>messagesReceivedCount := (\<lambda>l. 0)(''control'' := 1)\<rparr>)
   \<and> messagesReceivedCount
        (snd (handleControl test_env 1000
               \<lparr>cmd_UID = ''N2'', cmd_Method = MethodTypeDisconnect, cmd_Params = ''u1''\<rparr>
               test_node)) ''control'' = 1"
proof -
  have own: "cmd_UID \<lparr>cmd_UID = ''N1'', cmd_Method = MethodTypeNode, cmd_Params = []\<rparr>
               = uid test_node"
    by (simp add: test_node_def)
  from handleControl_counts_control
         [of test_env 1000 "\<lparr>cmd_UID = ''N1'', cmd_Method = MethodTypeNode, cmd_Params = []\<rparr>"
             test_node]
       handleControl_counts_control
         [of test_env 1000
             "\<lparr>cmd_UID = ''N2'', cmd_Method = MethodTypeDisconnect, cmd_Params = ''u1''\<rparr>"
             test_node]
       own
  show ?thesis by (simp add: test_node_def)
qed

text \<open>
  C8. The command \<open>pubDisconnect\<close> publishes carries the node's uid, the method
  Disconnect and the encoding of a record that holds the user alone, so the call does
  the same whatever \<open>reconnect\<close> is; and a node that receives a Disconnect command of
  another node, whose params decode to a record \<open>d\<close>, applies
  \<open>hub.disconnect(d.User, false)\<close>.
\<close>

theorem pubDisconnect_omits_reconnect:
  "pubDisconnect env user reconnect n =
     publishControl env
       \<lparr>cmd_UID = uid n, cmd_Method = MethodTypeDisconnect,
        cmd_Params = fst (EncodeDisconnect env \<lparr>disc_User = user\<rparr>)\<rparr> n
   \<and> pubDisconnect env user True n = pubDisconnect env user False n
   \<and> (cmd_UID cmd \<noteq> uid n \<and> cmd_Method cmd = MethodTypeDisconnect
        \<and> DecodeDisconnect env (cmd_Params cmd) = Inr d \<longrightarrow>
        handleControl env now cmd n =
          (fst (hub_disconnect env (disc_User d) False (hub n)),
           n\<lparr>messagesReceivedCount := Inc (messagesReceivedCount n) ''control'',
             hub := snd (hub_disconnect env (disc_User d) False (hub n))\<rparr>))"
  by (simp add: pubDisconnect_def handleControl_def Let_def split: prod.split)

theorem pubDisconnect_omits_reconnect_witness:
  "engine (snd (pubDisconnect test_env ''u1'' True test_node))
     = [EnginePublishControl
          \<lparr>cmd_UID = ''N1'', cmd_Method = MethodTypeDisconnect, cmd_Params = ''u1''\<rparr>]
   \<and> cmd_UID \<lparr>cmd_UID = ''N1'', cmd_Method = MethodTypeDisconnect, cmd_Params = ''u1''\<rparr>
       \<noteq> uid (test_node\<lparr>uid := ''N2''\<rparr>)
   \<and> DecodeDisconnect test_env ''u1'' = Inr \<lparr>disc_User = ''u1''\<rparr>
   \<and> handleControl test_env 1000
        \<lparr>cmd_UID = ''N1'', cmd_Method = MethodTypeDisconnect, cmd_Params = ''u1''\<rparr>
        (test_node\<lparr>uid := ''N2''\<rparr>)
      = (None, test_node\<lparr>uid := ''N2'',
                         messagesReceivedCount := Inc (\<lambda>l. 0) ''control'',
                         hub := [HubDisconnect ''u1'' False]\<rparr>)"
proof -
  let ?cmd = "\<lparr>cmd_UID = ''N1'', cmd_Method = MethodTypeDisconnect, cmd_Params = ''u1''\<rparr>"
  have peer: "cmd_UID ?cmd \<noteq> uid (test_node\<lparr>uid := ''N2''\<rparr>)"
    and disconnect: "cmd_Method ?cmd = MethodTypeDisconnect"
    and decoded: "DecodeDisconnect test_env (cmd_Params ?cmd) = Inr \<lparr>disc_User = ''u1''\<rparr>"
    by (simp_all add: test_env_def)
  from pubDisconnect_omits_reconnect
         [of test_env "''u1''" True test_node ?cmd "\<lparr>disc_User = ''u1''\<rparr>" 1000]
  have sent: "pubDisconnect test_env ''u1'' True test_node =
                publishControl test_env
                  \<lparr>cmd_UID = uid test_node, cmd_Method = MethodTypeDisconnect,
                   cmd_Params = fst (EncodeDisconnect test_env \<lparr>disc_User = ''u1''\<rparr>)\<rparr>
                  test_node"
    by simp
  from pubDisconnect_omits_reconnect
         [of test_env "''u1''" True "test_node\<lparr>uid := ''N2''\<rparr>" ?cmd
             "\<lparr>disc_User = ''u1''\<rparr>" 1000]
       peer disconnect decoded
  have received: "handleControl test_env 1000 ?cmd (test_node\<lparr>uid := ''N2''\<rparr>) =
          (fst (hub_disconnect test_env ''u1'' False (hub (test_node\<lparr>uid := ''N2''\<rparr>))),
           test_node\<lparr>uid := ''N2'',
             messagesReceivedCount :=
               Inc (messagesReceivedCount (test_node\<lparr>uid := ''N2''\<rparr>)) ''control'',
             hub := snd (hub_disconnect test_env ''u1'' False
                           (hub (test_node\<lparr>uid := ''N2''\<rparr>)))\<rparr>)"
    by simp
  have sent_value:
    "engine (snd (pubDisconnect test_env ''u1'' True test_node))
       = [EnginePublishControl ?cmd]"
    unfolding sent by (simp add: publishControl_def test_env_def test_node_def)
  have received_value:
    "handleControl test_env 1000 ?cmd (test_node\<lparr>uid := ''N2''\<rparr>)
       = (None, test_node\<lparr>uid := ''N2'',
                          messagesReceivedCount := Inc (\<lambda>l. 0) ''control'',
                          hub := [HubDisconnect ''u1'' False]\<rparr>)"
    unfolding received by (simp add: test_env_def test_node_def)
  from decoded have "DecodeDisconnect test_env ''u1'' = Inr \<lparr>disc_User = ''u1''\<rparr>"
    by simp
  with peer sent_value received_value show ?thesis
    by blast
qed

section \<open>The lifecycle\<close>

text \<open>
  C9. \<open>Shutdown\<close> is idempotent. On a node that is not shutting down and whose signal
  channel is open, the first call sets the flag, closes the channel, calls
  \<open>hub.shutdown()\<close> once and returns its error; a second call on the resulting node
  returns nil and changes nothing. In general a call that finds the flag set returns nil
  and leaves the node as it is, so neither the channel is closed nor the hub shut down
  again.
\<close>

theorem Shutdown_idempotent:
  "(\<not> shutdown n \<and> shutdownCh n = ChanOpen \<longrightarrow>
      Shutdown env n =
        Inr (fst (hub_shutdown env (hub n)),
             n\<lparr>shutdown := True, shutdownCh := ChanClosed,
               hub := snd (hub_shutdown env (hub n))\<rparr>)
      \<and> Shutdown env (n\<lparr>shutdown := True, shutdownCh := ChanClosed,
                         hub := snd (hub_shutdown env (hub n))\<rparr>)
          = Inr (None, n\<lparr>shutdown := True, shutdownCh := ChanClosed,
                          hub := snd (hub_shutdown env (hub n))\<rparr>))
   \<and> (shutdown n \<longrightarrow> Shutdown env n = Inr (None, n))"
  by (simp add: Shutdown_def Let_def split: prod.split)

theorem Shutdown_idempotent_witness:
  "\<not> shutdown test_node \<and> shutdownCh test_node = ChanOpen
   \<and> Shutdown test_env test_node
       = Inr (None, test_node\<lparr>shutdown := True, shutdownCh := ChanClosed, hub := [HubShutdown]\<rparr>)
   \<and> Shutdown test_env
        (test_node\<lparr>shutdown := True, shutdownCh := ChanClosed, hub := [HubShutdown]\<rparr>)
       = Inr (None, test_node\<lparr>shutdown := True, shutdownCh := ChanClosed, hub := [HubShutdown]\<rparr>)"
proof -
  have first: "\<not> shutdown test_node \<and> shutdownCh test_node = ChanOpen"
    by (simp add: test_node_def)
  have hub: "hub_shutdown test_env (hub test_node) = (None, [HubShutdown])"
    by (simp add: test_env_def test_node_def)
  from Shutdown_idempotent [of test_node test_env] first
  show ?thesis by (simp add: hub)
qed


section \<open>The public operations\<close>

lemma test_ChannelOpts_chat_hub_fails:
  "ChannelOpts test_env_hub_fails test_node ''chat:lobby'' = Inr (Some 0)"
  by (simp add: ChannelOpts_def test_node_def test_namespace_chat test_env_hub_fails_def
      test_env_def)

lemma test_ChannelOpts_chat_engine_fails:
  "ChannelOpts test_env_engine_fails test_node ''chat:lobby'' = Inr (Some 0)"
  by (simp add: ChannelOpts_def test_node_def test_namespace_chat test_env_engine_fails_def
      test_env_def)

text \<open>
  C2, as amended. \<open>Unsubscribe(user, ch)\<close>, whenever the lookup of the channel's
  namespace returns, as it does for every channel when \<open>ChannelNamespaceBoundary\<close> is not
  empty: an empty user gives BadRequest; otherwise a non-empty channel whose namespace
  \<open>ChannelOpts\<close> does not find gives NamespaceNotFound; in both cases nothing changes.
  Otherwise (empty channel, or namespace found) the hub's unsubscribe runs first. If it
  fails the result is InternalServerError and only the hub has changed: the engine and
  the sent counter are as before, so nothing was broadcast. If it succeeds the
  unsubscribe command, with the node's uid and the encoded user and channel, is
  published; the result is nil when the engine reports none and InternalServerError
  otherwise, and in both cases the hub keeps the state the local unsubscribe left.
\<close>

theorem Unsubscribe_local_first:
  "(user = [] \<longrightarrow> Unsubscribe env user ch n = Inr (Some ErrBadRequest, n))
   \<and> (user \<noteq> [] \<and> ch \<noteq> [] \<and> ChannelOpts env n ch = Inr None \<longrightarrow>
        Unsubscribe env user ch n = Inr (Some ErrNamespaceNotFound, n))
   \<and> (user \<noteq> [] \<and> (ch = [] \<or> (\<exists>chOpts. ChannelOpts env n ch = Inr (Some chOpts))) \<longrightarrow>
        (case hub_unsubscribe env user ch (hub n) of
           (Some err, h) \<Rightarrow>
             Unsubscribe env user ch n = Inr (Some ErrInternalServerError, n\<lparr>hub := h\<rparr>)
         | (None, h) \<Rightarrow>
             (case engine_publishControl env
                     \<lparr>cmd_UID = uid n, cmd_Method = MethodTypeUnsubscribe,
                      cmd_Params =
                        fst (EncodeUnsubscribe env \<lparr>unsub_User = user, unsub_Channel = ch\<rparr>)\<rparr>
                     (engine n) of
                (err, g) \<Rightarrow>
                  Unsubscribe env user ch n =
                    Inr (if err = None then None else Some ErrInternalServerError,
                         n\<lparr>hub := h,
                           messagesSentCount := Inc (messagesSentCount n) ''control'',
                           engine := g\<rparr>))))
   \<and> (ChannelNamespaceBoundary (config n) \<noteq> [] \<longrightarrow>
        ChannelOpts env n ch = Inr None \<or> (\<exists>chOpts. ChannelOpts env n ch = Inr (Some chOpts)))"
proof -
  have cases: "(user = [] \<longrightarrow> Unsubscribe env user ch n = Inr (Some ErrBadRequest, n))
   \<and> (user \<noteq> [] \<and> ch \<noteq> [] \<and> ChannelOpts env n ch = Inr None \<longrightarrow>
        Unsubscribe env user ch n = Inr (Some ErrNamespaceNotFound, n))
   \<and> (user \<noteq> [] \<and> (ch = [] \<or> (\<exists>chOpts. ChannelOpts env n ch = Inr (Some chOpts))) \<longrightarrow>
        (case hub_unsubscribe env user ch (hub n) of
           (Some err, h) \<Rightarrow>
             Unsubscribe env user ch n = Inr (Some ErrInternalServerError, n\<lparr>hub := h\<rparr>)
         | (None, h) \<Rightarrow>
             (case engine_publishControl env
                     \<lparr>cmd_UID = uid n, cmd_Method = MethodTypeUnsubscribe,
                      cmd_Params =
                        fst (EncodeUnsubscribe env \<lparr>unsub_User = user, unsub_Channel = ch\<rparr>)\<rparr>
                     (engine n) of
                (err, g) \<Rightarrow>
                  Unsubscribe env user ch n =
                    Inr (if err = None then None else Some ErrInternalServerError,
                         n\<lparr>hub := h,
                           messagesSentCount := Inc (messagesSentCount n) ''control'',
                           engine := g\<rparr>))))"
    by (auto simp add: Unsubscribe_def pubUnsubscribe_def publishControl_def Let_def
        split: prod.split option.split sum.split)
  have returns: "ChannelOpts env n ch = Inr None \<or> (\<exists>chOpts. ChannelOpts env n ch = Inr (Some chOpts))"
    if "ChannelNamespaceBoundary (config n) \<noteq> []"
  proof -
    from ChannelOpts_returns [OF that] obtain found where "ChannelOpts env n ch = Inr found"
      by blast
    then show ?thesis by (cases found) simp_all
  qed
  then have "ChannelNamespaceBoundary (config n) \<noteq> [] \<longrightarrow>
        ChannelOpts env n ch = Inr None \<or> (\<exists>chOpts. ChannelOpts env n ch = Inr (Some chOpts))"
    by blast
  from conjI [OF cases this] show ?thesis by (simp only: conj_assoc)
qed

theorem Unsubscribe_local_first_witness:
  "Unsubscribe test_env [] ''chat:lobby'' test_node = Inr (Some ErrBadRequest, test_node)
   \<and> ChannelNamespaceBoundary (config test_node) \<noteq> []
   \<and> (ChannelOpts test_env test_node ''$'' = Inr None
       \<or> (\<exists>chOpts. ChannelOpts test_env test_node ''$'' = Inr (Some chOpts)))
   \<and> ChannelOpts test_env test_node ''nope:lobby'' = Inr None
   \<and> Unsubscribe test_env ''u1'' ''nope:lobby'' test_node
       = Inr (Some ErrNamespaceNotFound, test_node)
   \<and> ChannelOpts test_env test_node ''chat:lobby'' = Inr (Some 0)
   \<and> Unsubscribe test_env ''u1'' ''chat:lobby'' test_node
       = Inr (None,
              test_node\<lparr>hub := [HubUnsubscribe ''u1'' ''chat:lobby''],
                messagesSentCount := Inc (\<lambda>l. 0) ''control'',
                engine := [EnginePublishControl
                             \<lparr>cmd_UID = ''N1'', cmd_Method = MethodTypeUnsubscribe,
                              cmd_Params = ''u1|chat:lobby''\<rparr>]\<rparr>)
   \<and> Unsubscribe test_env_hub_fails ''u1'' ''chat:lobby'' test_node
       = Inr (Some ErrInternalServerError, test_node)
   \<and> Unsubscribe test_env_engine_fails ''u1'' ''chat:lobby'' test_node
       = Inr (Some ErrInternalServerError,
              test_node\<lparr>hub := [HubUnsubscribe ''u1'' ''chat:lobby''],
                messagesSentCount := Inc (\<lambda>l. 0) ''control'',
                engine := [EnginePublishControl
                             \<lparr>cmd_UID = ''N1'', cmd_Method = MethodTypeUnsubscribe,
                              cmd_Params = ''u1|chat:lobby''\<rparr>]\<rparr>)"
proof -
  have found: "''u1'' \<noteq> [] \<and> (''chat:lobby'' = []
                 \<or> (\<exists>chOpts. ChannelOpts test_env test_node ''chat:lobby'' = Inr (Some chOpts)))"
    by (simp add: test_ChannelOpts_chat)
  have found_hub_fails: "''u1'' \<noteq> [] \<and> (''chat:lobby'' = []
         \<or> (\<exists>chOpts. ChannelOpts test_env_hub_fails test_node ''chat:lobby'' = Inr (Some chOpts)))"
    by (simp add: test_ChannelOpts_chat_hub_fails)
  have found_engine_fails: "''u1'' \<noteq> [] \<and> (''chat:lobby'' = []
         \<or> (\<exists>chOpts. ChannelOpts test_env_engine_fails test_node ''chat:lobby'' = Inr (Some chOpts)))"
    by (simp add: test_ChannelOpts_chat_engine_fails)
  have not_found: "''u1'' \<noteq> [] \<and> ''nope:lobby'' \<noteq> []
                   \<and> ChannelOpts test_env test_node ''nope:lobby'' = Inr None"
    by (simp add: test_ChannelOpts_nope)
  have bad: "Unsubscribe test_env [] ''chat:lobby'' test_node = Inr (Some ErrBadRequest, test_node)"
    using Unsubscribe_local_first [where user = "[]" and env = test_env
        and ch = "''chat:lobby''" and n = test_node]
    by simp
  have unknown: "Unsubscribe test_env ''u1'' ''nope:lobby'' test_node
                   = Inr (Some ErrNamespaceNotFound, test_node)"
    using Unsubscribe_local_first [where user = "''u1''" and env = test_env
        and ch = "''nope:lobby''" and n = test_node, THEN conjunct2, THEN conjunct1, THEN mp,
        OF not_found] .
  have "case hub_unsubscribe test_env ''u1'' ''chat:lobby'' (hub test_node) of
           (Some err, h) \<Rightarrow>
             Unsubscribe test_env ''u1'' ''chat:lobby'' test_node
               = Inr (Some ErrInternalServerError, test_node\<lparr>hub := h\<rparr>)
         | (None, h) \<Rightarrow>
             (case engine_publishControl test_env
                     \<lparr>cmd_UID = uid test_node, cmd_Method = MethodTypeUnsubscribe,
                      cmd_Params = fst (EncodeUnsubscribe test_env
                                          \<lparr>unsub_User = ''u1'', unsub_Channel = ''chat:lobby''\<rparr>)\<rparr>
                     (engine test_node) of
                (err, g) \<Rightarrow>
                  Unsubscribe test_env ''u1'' ''chat:lobby'' test_node =
                    Inr (if err = None then None else Some ErrInternalServerError,
                         test_node\<lparr>hub := h,
                           messagesSentCount := Inc (messagesSentCount test_node) ''control'',
                           engine := g\<rparr>))"
    using Unsubscribe_local_first [where user = "''u1''" and env = test_env
        and ch = "''chat:lobby''" and n = test_node, THEN conjunct2, THEN conjunct2, THEN conjunct1, THEN mp,
        OF found] .
  then have ok: "Unsubscribe test_env ''u1'' ''chat:lobby'' test_node
       = Inr (None,
              test_node\<lparr>hub := [HubUnsubscribe ''u1'' ''chat:lobby''],
                messagesSentCount := Inc (\<lambda>l. 0) ''control'',
                engine := [EnginePublishControl
                             \<lparr>cmd_UID = ''N1'', cmd_Method = MethodTypeUnsubscribe,
                              cmd_Params = ''u1|chat:lobby''\<rparr>]\<rparr>)"
    by (simp add: test_env_def test_node_def)
  have "case hub_unsubscribe test_env_hub_fails ''u1'' ''chat:lobby'' (hub test_node) of
           (Some err, h) \<Rightarrow>
             Unsubscribe test_env_hub_fails ''u1'' ''chat:lobby'' test_node
               = Inr (Some ErrInternalServerError, test_node\<lparr>hub := h\<rparr>)
         | (None, h) \<Rightarrow>
             (case engine_publishControl test_env_hub_fails
                     \<lparr>cmd_UID = uid test_node, cmd_Method = MethodTypeUnsubscribe,
                      cmd_Params = fst (EncodeUnsubscribe test_env_hub_fails
                                          \<lparr>unsub_User = ''u1'', unsub_Channel = ''chat:lobby''\<rparr>)\<rparr>
                     (engine test_node) of
                (err, g) \<Rightarrow>
                  Unsubscribe test_env_hub_fails ''u1'' ''chat:lobby'' test_node =
                    Inr (if err = None then None else Some ErrInternalServerError,
                         test_node\<lparr>hub := h,
                           messagesSentCount := Inc (messagesSentCount test_node) ''control'',
                           engine := g\<rparr>))"
    using Unsubscribe_local_first [where user = "''u1''" and env = test_env_hub_fails
        and ch = "''chat:lobby''" and n = test_node, THEN conjunct2, THEN conjunct2, THEN conjunct1, THEN mp,
        OF found_hub_fails] .
  then have hub_fails: "Unsubscribe test_env_hub_fails ''u1'' ''chat:lobby'' test_node
       = Inr (Some ErrInternalServerError, test_node)"
    by (simp add: test_env_hub_fails_def test_env_def test_node_def)
  have "case hub_unsubscribe test_env_engine_fails ''u1'' ''chat:lobby'' (hub test_node) of
           (Some err, h) \<Rightarrow>
             Unsubscribe test_env_engine_fails ''u1'' ''chat:lobby'' test_node
               = Inr (Some ErrInternalServerError, test_node\<lparr>hub := h\<rparr>)
         | (None, h) \<Rightarrow>
             (case engine_publishControl test_env_engine_fails
                     \<lparr>cmd_UID = uid test_node, cmd_Method = MethodTypeUnsubscribe,
                      cmd_Params = fst (EncodeUnsubscribe test_env_engine_fails
                                          \<lparr>unsub_User = ''u1'', unsub_Channel = ''chat:lobby''\<rparr>)\<rparr>
                     (engine test_node) of
                (err, g) \<Rightarrow>
                  Unsubscribe test_env_engine_fails ''u1'' ''chat:lobby'' test_node =
                    Inr (if err = None then None else Some ErrInternalServerError,
                         test_node\<lparr>hub := h,
                           messagesSentCount := Inc (messagesSentCount test_node) ''control'',
                           engine := g\<rparr>))"
    using Unsubscribe_local_first [where user = "''u1''" and env = test_env_engine_fails
        and ch = "''chat:lobby''" and n = test_node, THEN conjunct2, THEN conjunct2, THEN conjunct1, THEN mp,
        OF found_engine_fails] .
  then have engine_fails: "Unsubscribe test_env_engine_fails ''u1'' ''chat:lobby'' test_node
       = Inr (Some ErrInternalServerError,
              test_node\<lparr>hub := [HubUnsubscribe ''u1'' ''chat:lobby''],
                messagesSentCount := Inc (\<lambda>l. 0) ''control'',
                engine := [EnginePublishControl
                             \<lparr>cmd_UID = ''N1'', cmd_Method = MethodTypeUnsubscribe,
                              cmd_Params = ''u1|chat:lobby''\<rparr>]\<rparr>)"
    by (simp add: test_env_engine_fails_def test_env_def test_node_def)
  have boundary: "ChannelNamespaceBoundary (config test_node) \<noteq> []"
    by (simp add: test_node_def test_config_def)
  have returns: "ChannelOpts test_env test_node ''$'' = Inr None
       \<or> (\<exists>chOpts. ChannelOpts test_env test_node ''$'' = Inr (Some chOpts))"
    using Unsubscribe_local_first [where user = "''u1''" and env = test_env
        and ch = "''$''" and n = test_node, THEN conjunct2, THEN conjunct2, THEN conjunct2,
        THEN mp, OF boundary] .
  from bad boundary returns test_ChannelOpts_nope unknown test_ChannelOpts_chat ok hub_fails
    engine_fails
  show ?thesis by (intro conjI)
qed

text \<open>
  C2 as the specification states it fails where the lookup of the namespace panics. With
  an empty \<open>ChannelNamespaceBoundary\<close> and the channel \<open>$\<close>, which is the private
  prefix alone, the user \<open>u1\<close> is not empty and the claim has the call either return
  NamespaceNotFound or go on to the hub; the code panics at \<^verbatim>\<open>parts[0]\<close> in
  \<open>namespaceName\<close> and returns nothing.
\<close>

theorem Unsubscribe_panics:
  "Unsubscribe test_env ''u1'' ''$''
     (test_node\<lparr>config := test_config\<lparr>ChannelNamespaceBoundary := []\<rparr>\<rparr>)
     = Inl IndexOutOfRange"
  by (simp add: Unsubscribe_def ChannelOpts_def test_node_def namespaceName_panics)



lemma ChannelOpts_nuid [simp]:
  "ChannelOpts (env\<lparr>nuid_Next := g\<rparr>) n ch = ChannelOpts env n ch"
  by (simp add: ChannelOpts_def split: sum.split)




text \<open>
  C4, as amended. A client message whose type is none of Publication, Join and Leave is
  dropped in silence: \<open>handleClientMessage\<close> returns nil and the node is exactly as
  before, so nothing is broadcast, nothing is counted and nothing is logged. The code has
  an empty \<^verbatim>\<open>default\<close> branch and no call of the logger in this function.
\<close>

theorem handleClientMessage_unknown_dropped:
  "msg_Type message = MessageTypeOther v \<Longrightarrow> handleClientMessage env message n = (None, n)"
  by (simp add: handleClientMessage_def)

theorem handleClientMessage_unknown_dropped_witness:
  "msg_Type \<lparr>msg_Type = MessageTypeOther 7, msg_Channel = ''chat:lobby'', msg_Data = ''x''\<rparr>
     = MessageTypeOther 7
   \<and> handleClientMessage test_env
       \<lparr>msg_Type = MessageTypeOther 7, msg_Channel = ''chat:lobby'', msg_Data = ''x''\<rparr> test_node
      = (None, test_node)"
proof -
  have unknown:
    "msg_Type \<lparr>msg_Type = MessageTypeOther 7, msg_Channel = ''chat:lobby'', msg_Data = ''x''\<rparr>
       = MessageTypeOther 7"
    by simp
  from handleClientMessage_unknown_dropped [OF unknown, of test_env test_node] unknown
  show ?thesis by blast
qed

text \<open>
  C4 as the specification states it fails: the message of unknown type 7 leaves the log
  of the node empty, where the claim has an entry logged at error level.
\<close>

theorem handleClientMessage_unknown_not_logged:
  "logged test_node = []
   \<and> logged (snd (handleClientMessage test_env
        \<lparr>msg_Type = MessageTypeOther 7, msg_Channel = ''chat:lobby'', msg_Data = ''x''\<rparr>
        test_node)) = []"
  by (simp add: handleClientMessage_def test_node_def)


section \<open>The channel grammar\<close>

lemma Split_splitLoop: "sep \<noteq> [] \<Longrightarrow> Split s sep = splitLoop (Count s sep) s sep"
  by (simp add: Split_def genSplit_def)

lemma test_unbordered: "unbordered (ChannelUserBoundary test_config)"
  by (simp add: test_config_def unbordered_def)

lemma test_spec_userAllowed:
  "spec_userAllowed test_config ''room#alice,bob'' ''alice''"
  "\<not> spec_userAllowed test_config ''room#alice,bob'' ''carol''"
  by code_simp+

lemma test_last_piece: "last (Split ''room#alice,bob'' ''#'') = ''alice,bob''"
  by code_simp

lemma test_users: "Split ''alice,bob'' '','' = [''alice'', ''bob'']"
  by code_simp

lemma test_Contains:
  "Contains ''room#alice,bob'' ''#''"
  "\<not> Contains ''room'' ''#''"
  by code_simp+

text \<open>
  C5, as amended. \<open>userAllowed(ch, user)\<close>: a channel that does not contain
  \<open>ChannelUserBoundary\<close> admits every user. A channel that contains a non-empty boundary
  is cut by \<^verbatim>\<open>strings.Split\<close> at the occurrences of the boundary met from the left,
  each starting after the end of the one before; the last piece follows an occurrence of
  the boundary and contains none, it is split on \<open>ChannelUserSeparator\<close>, and the user is
  admitted iff it is one of the resulting ids. When moreover the boundary is unbordered
  (two occurrences cannot overlap; every boundary of one character, such as the usual
  \<open>#\<close>, is), that piece is the segment after the last occurrence of the boundary, and
  \<open>userAllowed\<close> is what the specification says.
\<close>

theorem userAllowed_allow_list:
  "(\<not> Contains ch (ChannelUserBoundary c) \<longrightarrow> userAllowed c ch user = Inr True)
   \<and> (ChannelUserBoundary c \<noteq> [] \<and> Contains ch (ChannelUserBoundary c) \<longrightarrow>
        userAllowed c ch user =
          Inr (user \<in> set (Split (last (Split ch (ChannelUserBoundary c)))
                                  (ChannelUserSeparator c)))
        \<and> (\<exists>pre. ch = pre @ ChannelUserBoundary c @ last (Split ch (ChannelUserBoundary c)))
        \<and> \<not> Contains (last (Split ch (ChannelUserBoundary c))) (ChannelUserBoundary c))
   \<and> (ChannelUserBoundary c \<noteq> [] \<and> unbordered (ChannelUserBoundary c) \<longrightarrow>
        userAllowed c ch user = Inr (spec_userAllowed c ch user))"
proof -
  let ?b = "ChannelUserBoundary c"
  let ?seg = "last (Split ch ?b)"
  have none: "userAllowed c ch user = Inr True" if "\<not> Contains ch ?b"
    using that by (simp add: userAllowed_def)
  have some: "userAllowed c ch user = Inr (user \<in> set (Split ?seg (ChannelUserSeparator c)))"
    if "?b \<noteq> []" "Contains ch ?b"
    using that Split_last_piece [OF that(1), of ch]
    by (simp add: userAllowed_def Let_def userInList_iff Split_splitLoop)
  have piece: "(\<exists>pre. ch = pre @ ?b @ ?seg) \<and> \<not> Contains ?seg ?b"
    if "?b \<noteq> []" "Contains ch ?b"
    using that last_Split_decomp [OF that(1), of ch] by (simp add: Split_splitLoop)
  have spec: "userAllowed c ch user = Inr (spec_userAllowed c ch user)"
    if "?b \<noteq> []" "unbordered ?b"
  proof (cases "Contains ch ?b")
    case True
    from last_Split_after_last [OF that True] that(1)
    have "after_last ?b ch = Some ?seg" by (simp add: Split_splitLoop)
    with some [OF that(1) True] show ?thesis by (simp add: spec_userAllowed_def)
  next
    case False
    then have "after_last ?b ch = None" by (simp add: after_last_None_iff)
    with none [OF False] show ?thesis by (simp add: spec_userAllowed_def)
  qed
  from none some piece spec show ?thesis by blast
qed

theorem userAllowed_allow_list_witness:
  "\<not> Contains ''room'' (ChannelUserBoundary test_config)
   \<and> userAllowed test_config ''room'' ''carol'' = Inr True
   \<and> ChannelUserBoundary test_config \<noteq> []
   \<and> unbordered (ChannelUserBoundary test_config)
   \<and> Contains ''room#alice,bob'' (ChannelUserBoundary test_config)
   \<and> userAllowed test_config ''room#alice,bob'' ''alice'' = Inr True
   \<and> userAllowed test_config ''room#alice,bob'' ''carol'' = Inr False
   \<and> userAllowed test_config ''room#alice,bob'' ''bob''
       = Inr (''bob'' \<in> set [''alice'', ''bob''])"
proof -
  have b: "ChannelUserBoundary test_config = ''#''"
    and sep: "ChannelUserSeparator test_config = '',''"
    by (simp_all add: test_config_def)
  have absent: "\<not> Contains ''room'' (ChannelUserBoundary test_config)"
    and present: "ChannelUserBoundary test_config \<noteq> []
                  \<and> Contains ''room#alice,bob'' (ChannelUserBoundary test_config)"
    and single: "ChannelUserBoundary test_config \<noteq> []
                 \<and> unbordered (ChannelUserBoundary test_config)"
    using test_Contains test_unbordered by (simp_all add: b)
  have a1: "userAllowed test_config ''room'' ''carol'' = Inr True"
    using userAllowed_allow_list [where c = test_config and ch = "''room''" and user = "''carol''",
        THEN conjunct1, THEN mp, OF absent] .
  have a2: "userAllowed test_config ''room#alice,bob'' ''alice'' = Inr True"
    using userAllowed_allow_list
        [where c = test_config and ch = "''room#alice,bob''" and user = "''alice''",
         THEN conjunct2, THEN conjunct2, THEN mp, OF single]
    by (simp add: test_spec_userAllowed)
  have a3: "userAllowed test_config ''room#alice,bob'' ''carol'' = Inr False"
    using userAllowed_allow_list
        [where c = test_config and ch = "''room#alice,bob''" and user = "''carol''",
         THEN conjunct2, THEN conjunct2, THEN mp, OF single]
    by (simp add: test_spec_userAllowed)
  have a4: "userAllowed test_config ''room#alice,bob'' ''bob''
              = Inr (''bob'' \<in> set [''alice'', ''bob''])"
    using userAllowed_allow_list
        [where c = test_config and ch = "''room#alice,bob''" and user = "''bob''",
         THEN conjunct2, THEN conjunct1, THEN mp, OF present, THEN conjunct1]
    by (simp only: b sep test_last_piece test_users)
  from absent a1 single present a2 a3 a4 show ?thesis by blast
qed

text \<open>
  C5 as the specification states it fails when occurrences of the boundary overlap. With
  the boundary \<open>##\<close> and the channel \<open>room###alice\<close>, the last occurrence of the boundary
  is followed by \<open>alice\<close>, so the claim admits the user \<open>alice\<close>; the code splits into
  \<open>room\<close> and \<open>#alice\<close> and refuses.
\<close>

theorem userAllowed_overlapping_boundary:
  "userAllowed (test_config\<lparr>ChannelUserBoundary := ''##''\<rparr>) ''room###alice'' ''alice''
     = Inr False
   \<and> spec_userAllowed (test_config\<lparr>ChannelUserBoundary := ''##''\<rparr>) ''room###alice'' ''alice''"
  by code_simp

text \<open>
  C6, as amended. \<open>namespaceName(ch)\<close>, for a non-empty \<open>ChannelNamespaceBoundary\<close>: the
  private prefix is stripped from the front of \<open>ch\<close> if it is there; if the remainder
  contains the boundary the namespace is the part of the remainder before the first
  occurrence of the boundary, otherwise it is the empty string.
\<close>

theorem namespaceName_before_first_boundary:
  assumes "ChannelNamespaceBoundary c \<noteq> []"
  shows "namespaceName c ch = Inr (spec_namespaceName c ch)"
proof -
  let ?b = "ChannelNamespaceBoundary c"
  let ?rest = "TrimPrefix ch (ChannelPrivatePrefix c)"
  have rest: "spec_namespaceName c ch = (case before_first ?b ?rest of None \<Rightarrow> [] | Some ns \<Rightarrow> ns)"
    by (simp add: spec_namespaceName_def TrimPrefix_def)
  show ?thesis
  proof (cases "Index ?rest ?b")
    case None
    then show ?thesis
      by (simp add: namespaceName_def Contains_def rest before_first_Index)
  next
    case (Some m)
    with assms have "SplitN ?rest ?b 2 = [take m ?rest, drop (m + length ?b) ?rest]"
      by (simp add: SplitN_def genSplit_def numeral_2_eq_2)
    with Some show ?thesis
      by (simp add: namespaceName_def Contains_def rest before_first_Index)
  qed
qed

theorem namespaceName_before_first_boundary_witness:
  "ChannelNamespaceBoundary test_config \<noteq> []
   \<and> namespaceName test_config ''$chat:lobby:1'' = Inr ''chat''
   \<and> namespaceName test_config ''lobby'' = Inr []"
proof -
  have b: "ChannelNamespaceBoundary test_config \<noteq> []"
    by (simp add: test_config_def)
  have s1: "spec_namespaceName test_config ''$chat:lobby:1'' = ''chat''"
    and s2: "spec_namespaceName test_config ''lobby'' = []"
    by code_simp+
  from namespaceName_before_first_boundary [OF b, of "''$chat:lobby:1''"]
       namespaceName_before_first_boundary [OF b, of "''lobby''"] b
  show ?thesis by (simp add: s1 s2)
qed

text \<open>
  C6 as the specification states it fails for an empty boundary, as in the zero value of
  \<^verbatim>\<open>Config\<close>. The empty string occurs in \<open>chat\<close> first at its front, so the claim
  gives the empty namespace; \<^verbatim>\<open>SplitN\<close> with an empty separator cuts off the first
  character, and the code returns \<open>c\<close>.
\<close>

theorem namespaceName_empty_boundary:
  "namespaceName (test_config\<lparr>ChannelNamespaceBoundary := []\<rparr>) ''chat'' = Inr ''c''
   \<and> spec_namespaceName (test_config\<lparr>ChannelNamespaceBoundary := []\<rparr>) ''chat'' = []"
  by code_simp

section \<open>The registry cleaner\<close>










end
